theory Spec2Isabelle
  imports Main "HOL-Library.Word" "HOL-Library.Signed_Division"
begin

unbundle bit_operations_syntax

section \<open>Time Circuits Display: calendar codec, time travel and keypad entry\<close>

text \<open>
  A shallow embedding of the date arithmetic of \<^verbatim>\<open>tc_time.cpp\<close> and of the
  keypad interpreter of \<^verbatim>\<open>tc_keypad.cpp\<close>. C \<^verbatim>\<open>int\<close> values are HOL
  integers, \<^verbatim>\<open>uint32_t\<close> and \<^verbatim>\<open>uint64_t\<close> are 32 and 64 bit words,
  \<^verbatim>\<open>unsigned long\<close> (the millisecond counter) is a 32 bit word. C division and
  remainder truncate towards zero: \<open>sdiv\<close> and \<open>smod\<close>.
\<close>

subsection \<open>Errors\<close>

text \<open>
  A read outside a constant table is undefined behaviour in the source; the model
  reports it as a value. A loop that does not return is \<open>None\<close>.
\<close>

datatype error = OutOfBounds

subsection \<open>Constant tables of \<^verbatim>\<open>tc_time.cpp\<close>\<close>

definition monthDays :: "int list" where
  "monthDays = [31, 28, 31, 30, 31, 30, 31, 31, 30, 31, 30, 31]"

definition mon_yday :: "nat list list" where
  "mon_yday =
    [[0, 31, 59, 90, 120, 151, 181, 212, 243, 273, 304, 334, 365],
     [0, 31, 60, 91, 121, 152, 182, 213, 244, 274, 305, 335, 366]]"

definition mins1kYears :: "64 word list" where
  "mins1kYears =
    [0, 525074400, 1050674400, 1576274400, 2101874400,
     2627474400, 3153074400, 3678674400, 4204274400, 4729874400]"

text \<open>
  The quotients of \<^verbatim>\<open>hours1kYears\<close> are constant expressions, computed before
  they are stored as \<^verbatim>\<open>uint32_t\<close>.
\<close>

definition hours1kYears :: "32 word list" where
  "hours1kYears = map word_of_int
    [0, 525074400 div 60, 1050674400 div 60, 1576274400 div 60, 2101874400 div 60,
     2627474400 div 60, 3153074400 div 60, 3678674400 div 60, 4204274400 div 60,
     4729874400 div 60]"

text \<open>Indexing a table with a C \<^verbatim>\<open>int\<close>.\<close>

definition at_index :: "'a list \<Rightarrow> int \<Rightarrow> error + 'a" where
  "at_index xs i = (if 0 \<le> i \<and> i < int (length xs) then Inr (xs ! nat i) else Inl OutOfBounds)"

subsection \<open>Leap years and month lengths\<close>

text \<open>
  \<^verbatim>\<open>if(year & 3 == 0)\<close>: in C the comparison binds tighter than the bitwise
  conjunction, so the condition is \<^verbatim>\<open>year & (3 == 0)\<close>, and a C condition holds
  when its value is not zero.
\<close>

definition isLeapYear :: "int \<Rightarrow> bool" where
  "isLeapYear year =
    (if (year AND of_bool ((3::int) = 0)) \<noteq> 0 then
       (if year smod 100 = 0 then
          (if year smod 400 = 0 then True else False)
        else True)
     else False)"

text \<open>The rule the specification words: divisible by 4, and not by 100 unless by 400.\<close>

definition gregorian_leap :: "int \<Rightarrow> bool" where
  "gregorian_leap year = (4 dvd year \<and> (if 100 dvd year then 400 dvd year else True))"

definition daysInMonth :: "int \<Rightarrow> int \<Rightarrow> error + int" where
  "daysInMonth month year =
    (if month = 2 \<and> isLeapYear year then Inr 29 else at_index monthDays (month - 1))"

subsection \<open>\<^verbatim>\<open>dateToMins\<close>\<close>

text \<open>
  \<^verbatim>\<open>while(c-- > d) total32 += (isLeapYear(c) ? (8760+24) : 8760);\<close>
  The body sees the decremented \<open>c\<close>.
\<close>

partial_function (option) dateToMins_loop :: "int \<Rightarrow> int \<Rightarrow> 32 word \<Rightarrow> 32 word option" where
  "dateToMins_loop c d total32 =
    (if c > d then
       dateToMins_loop (c - 1) d (total32 + (if isLeapYear (c - 1) then 8760 + 24 else 8760))
     else Some total32)"

declare dateToMins_loop.simps [code]

definition dateToMins :: "int \<Rightarrow> int \<Rightarrow> int \<Rightarrow> int \<Rightarrow> int \<Rightarrow> (error + 64 word) option" where
  "dateToMins year month day hour minute =
    (case at_index hours1kYears (year sdiv 1000) of
       Inl e \<Rightarrow> Some (Inl e)
     | Inr h1k \<Rightarrow>
        (let d = (if h1k \<noteq> 0 then (year sdiv 1000) * 1000 else 1) in
         case dateToMins_loop year d h1k of
           None \<Rightarrow> None
         | Some total32 \<Rightarrow>
            (case at_index (mon_yday ! (if isLeapYear year then 1 else 0)) (month - 1) of
               Inl e \<Rightarrow> Some (Inl e)
             | Inr yd \<Rightarrow>
                (let total32 = total32 + word_of_nat yd * 24;
                     total32 = total32 + word_of_int ((day - 1) * 24);
                     total32 = total32 + word_of_int hour;
                     total64 = (ucast total32 :: 64 word) * 60;
                     total64 = total64 + word_of_int minute
                 in Some (Inr total64)))))"

subsection \<open>\<^verbatim>\<open>minsToDate\<close>\<close>

text \<open>
  \<^verbatim>\<open>while(d >= 0) { if(total64 > mins1kYears[d]) break; d--; }\<close>
  The index only decreases, and the loop is entered with \<open>d = 9\<close>.
\<close>

function find1k :: "64 word \<Rightarrow> int \<Rightarrow> int" where
  "find1k total64 d =
    (if d \<ge> 0 then
       (if total64 > mins1kYears ! nat d then d else find1k total64 (d - 1))
     else d)"
  by pat_completeness auto
termination
  by (relation "measure (\<lambda>(t, d). nat (d + 1))") auto

declare find1k.simps [simp del]

text \<open>
  \<^verbatim>\<open>while(1) { temp = isLeapYear(c++) ? ((8760+24)*60) : (8760*60);
             if(total32 < temp) break; year++; total32 -= temp; }\<close>
\<close>

partial_function (option) year_loop :: "int \<Rightarrow> int \<Rightarrow> 32 word \<Rightarrow> (int \<times> 32 word) option" where
  "year_loop c year total32 =
    (let temp = (if isLeapYear c then (8760 + 24) * 60 else 8760 * 60) in
     if total32 < temp then Some (year, total32)
     else year_loop (c + 1) (year + 1) (total32 - temp))"

declare year_loop.simps [code]

text \<open>
  \<^verbatim>\<open>while(c < 12) { if(total32 < (mon_yday[temp][c]*24*60)) break; c++; }\<close>
\<close>

function month_loop :: "nat \<Rightarrow> nat \<Rightarrow> 32 word \<Rightarrow> nat" where
  "month_loop temp c total32 =
    (if c < 12 then
       (if total32 < word_of_nat (mon_yday ! temp ! c) * 24 * 60 then c
        else month_loop temp (c + 1) total32)
     else c)"
  by pat_completeness auto
termination
  by (relation "measure (\<lambda>(temp, c, t). 12 - c)") auto

declare month_loop.simps [simp del]

definition minsToDate :: "64 word \<Rightarrow> (int \<times> int \<times> int \<times> int \<times> int) option" where
  "minsToDate total64 =
    (let d = find1k total64 9;
         (total64, c, year) =
            (if d > 0 then (total64 - mins1kYears ! nat d, d * 1000, d * 1000)
             else (total64, 1, 1));
         total32 = (ucast total64 :: 32 word)
     in case year_loop c year total32 of
          None \<Rightarrow> None
        | Some (year, total32) \<Rightarrow>
           (let temp = (if isLeapYear year then 1 else 0);
                c = month_loop temp 1 total32;
                month = int c;
                total32 = total32 - word_of_nat (mon_yday ! temp ! (c - 1)) * 24 * 60;
                temp = uint total32 div (24 * 60);
                day = temp + 1;
                total32 = total32 - word_of_int (temp * (24 * 60));
                temp = uint total32 div 60;
                hour = temp;
                minute = uint (total32 - word_of_int (temp * 60))
            in Some (year, month, day, hour, minute)))"

subsection \<open>Dates the codec supports\<close>

text \<open>
  A date of the supported range, its day bounded by what \<open>daysInMonth\<close> returns.
\<close>

definition valid_date :: "int \<Rightarrow> int \<Rightarrow> int \<Rightarrow> int \<Rightarrow> int \<Rightarrow> bool" where
  "valid_date year month day hour minute =
    (1 \<le> year \<and> year \<le> 9999 \<and> 1 \<le> month \<and> month \<le> 12 \<and> 1 \<le> day \<and>
     (case daysInMonth month year of Inr n \<Rightarrow> day \<le> n | Inl e \<Rightarrow> False) \<and>
     0 \<le> hour \<and> hour \<le> 23 \<and> 0 \<le> minute \<and> minute \<le> 59)"

text \<open>Minutes since 1/1/1 0:00 when every year has 365 days.\<close>

definition linear_minutes :: "int \<Rightarrow> int \<Rightarrow> int \<Rightarrow> int \<Rightarrow> int \<Rightarrow> nat" where
  "linear_minutes year month day hour minute =
    (nat (year - 1) * 8760 + (mon_yday ! 0 ! nat (month - 1)) * 24 + nat (day - 1) * 24 + nat hour) * 60
      + nat minute"

subsection \<open>Clock displays\<close>

text \<open>
  The date and time a \<^verbatim>\<open>clockDisplay\<close> object holds, and its year offset.
\<close>

record clockDisplay =
  cd_year :: int
  cd_month :: int
  cd_day :: int
  cd_hour :: int
  cd_minute :: int
  cd_yearoffset :: int

text \<open>
  Modelled from the spec: the setters of class \<^verbatim>\<open>clockDisplay\<close>
  (\<^verbatim>\<open>clockdisplay.cpp\<close> is not under src/). Section 4.2: "month clamped to [1,12],
  day clamped to [1, days-in-month], hour/minute validated by caller". The month
  length is the one \<open>daysInMonth\<close> of \<^verbatim>\<open>tc_time.cpp\<close> returns.
\<close>

definition setYear :: "int \<Rightarrow> clockDisplay \<Rightarrow> clockDisplay" where
  "setYear yearNum c = c\<lparr>cd_year := yearNum\<rparr>"

definition setMonth :: "int \<Rightarrow> clockDisplay \<Rightarrow> clockDisplay" where
  "setMonth monthNum c =
    c\<lparr>cd_month := (if monthNum < 1 then 1 else if monthNum > 12 then 12 else monthNum)\<rparr>"

definition setDay :: "int \<Rightarrow> clockDisplay \<Rightarrow> error + clockDisplay" where
  "setDay dayNum c =
    (case daysInMonth (cd_month c) (cd_year c) of
       Inl e \<Rightarrow> Inl e
     | Inr maxDay \<Rightarrow>
        Inr (c\<lparr>cd_day := (if dayNum < 1 then 1 else if dayNum > maxDay then maxDay else dayNum)\<rparr>))"

definition setHour :: "int \<Rightarrow> clockDisplay \<Rightarrow> clockDisplay" where
  "setHour hourNum c = c\<lparr>cd_hour := hourNum\<rparr>"

definition setMinute :: "int \<Rightarrow> clockDisplay \<Rightarrow> clockDisplay" where
  "setMinute minNum c = c\<lparr>cd_minute := minNum\<rparr>"

definition setYearOffset :: "int \<Rightarrow> clockDisplay \<Rightarrow> clockDisplay" where
  "setYearOffset yOffs c = c\<lparr>cd_yearoffset := yOffs\<rparr>"

text \<open>
  Modelled from the spec: \<^verbatim>\<open>clockDisplay::setFromStruct\<close> (not under src/) loads
  a preset; section 4.5: "loads the corresponding destination/departed presets".
  A preset is a \<^verbatim>\<open>dateStruct\<close>: year, month, day, hour, minute.
\<close>

type_synonym dateStruct = "int \<times> int \<times> int \<times> int \<times> int"

definition setFromStruct :: "dateStruct \<Rightarrow> clockDisplay \<Rightarrow> error + clockDisplay" where
  "setFromStruct ds c =
    (case ds of (y, mo, d, h, mi) \<Rightarrow>
       (case setDay d (setMonth mo (setYear y c)) of
          Inl e \<Rightarrow> Inl e
        | Inr c \<Rightarrow> Inr (setMinute mi (setHour h c))))"

definition destinationTimes :: "dateStruct list" where
  "destinationTimes =
    [(1985, 10, 26, 1, 21), (1985, 10, 26, 1, 24), (1955, 11, 5, 6, 0), (1985, 10, 27, 11, 0),
     (2015, 10, 21, 16, 29), (1955, 11, 12, 6, 0), (1885, 1, 1, 0, 0), (1885, 9, 2, 12, 0)]"

definition departedTimes :: "dateStruct list" where
  "departedTimes =
    [(1985, 10, 26, 1, 20), (1955, 11, 12, 22, 4), (1985, 10, 26, 1, 34), (1885, 9, 7, 9, 10),
     (1985, 10, 26, 11, 35), (1985, 10, 27, 2, 42), (1955, 11, 12, 21, 44), (1955, 11, 13, 12, 0)]"

subsection \<open>The hardware clock, the trace and the program state\<close>

record DateTime =
  dt_year :: int
  dt_month :: int
  dt_day :: int
  dt_hour :: int
  dt_minute :: int
  dt_second :: int

text \<open>
  Calls into modules that are not under src/ (audio, display driver, storage, music
  player, display modes) are recorded in a trace, in the order the source makes them.
\<close>

datatype pa_flag = PA_CHECKNM | PA_INTRMUS | PA_ALLOWSD | PA_DYNVOL

datatype effect =
    PlayFile string "pa_flag list"
  | ShowText string
  | Save string
  | Call string

text \<open>The global variables of \<^verbatim>\<open>tc_time.cpp\<close> and \<^verbatim>\<open>tc_keypad.cpp\<close>.\<close>

record state =
  presentTime :: clockDisplay
  destinationTime :: clockDisplay
  departedTime :: clockDisplay
  rtc :: DateTime
  timeDifference :: "64 word"
  timeDiffUp :: bool
  timetravelPersistent :: bool
  autoPaused :: bool
  pauseNow :: "32 word"
  pauseDelay :: "32 word"
  autoIntDone :: bool
  autoTime :: int
  timetravelNow :: "32 word"
  timeTraveled :: bool
  timeTravelP1 :: int
  timetravelP1Now :: "32 word"
  timetravelP1Delay :: "32 word"
  FPBUnitIsOn :: bool
  startup :: bool
  dateBuffer :: "char list"
  dateIndex :: int
  lastKeyPressed :: "32 word"
  isEnterKeyPressed :: bool
  isEnterKeyHeld :: bool
  enterWasPressed :: bool
  needDepTime :: bool
  timeNow :: "32 word"
  enterDelay :: "32 word"
  specDisp :: int
  alarmHour :: int
  alarmMinute :: int
  alarmOnOff :: bool
  remMonth :: int
  remDay :: int
  remHour :: int
  remMin :: int
  ctDown :: "32 word"
  ctDownNow :: "32 word"
  muteBeep :: bool
  beepMode :: int
  beepTimer :: bool
  beepTimerNow :: "32 word"
  beepTimeout :: "32 word"
  trace :: "effect list"

text \<open>
  What one pass reads from outside the two files: the millisecond counter, constants
  and tables of headers that are not under src/, and the answers of the modules that
  are not under src/. An answer may depend on the calls made so far, so it is a
  function of the trace.
\<close>

record env =
  millis :: "32 word"
  autoTimeInterval :: int
  TT_P1_DELAY_P1 :: "32 word"
  ENTER_DELAY :: "32 word"
  BEEPM2_SECS :: "32 word"
  BEEPM3_SECS :: "32 word"
  TC_HAVETEMP :: bool
  timeTravelP0 :: bool
  timeTravelRE :: bool
  getHrs1KYrs :: "int \<Rightarrow> 32 word"
  haveMusic :: bool
  mpActive :: bool
  haveRcMode :: bool
  haveWcMode :: bool
  WcHaveTZ1 :: bool
  WcHaveTZ2 :: bool
  haveHum :: bool
  isRcMode :: "effect list \<Rightarrow> bool"
  isWcMode :: "effect list \<Rightarrow> bool"
  stored_destination :: clockDisplay
  stored_departed :: clockDisplay

definition emit :: "effect list \<Rightarrow> state \<Rightarrow> state" where
  "emit es s = s\<lparr>trace := trace s @ es\<rparr>"

text \<open>
  \<^verbatim>\<open>myrtcnow\<close> returns what the hardware clock holds; its retries after an
  implausible reading are not modelled.
\<close>

definition myrtcnow :: "state \<Rightarrow> DateTime" where
  "myrtcnow s = rtc s"

subsection \<open>Pausing the rotation of presets\<close>

text \<open>\<^verbatim>\<open>autoTimeInterval e\<close> stands for \<^verbatim>\<open>autoTimeIntervals[autoInterval]\<close>.\<close>

definition pauseAuto :: "env \<Rightarrow> state \<Rightarrow> state" where
  "pauseAuto e s =
    (if autoTimeInterval e \<noteq> 0 then
       s\<lparr>pauseDelay := 30 * 60 * 1000, autoPaused := True, pauseNow := millis e\<rparr>
     else s)"

definition checkIfAutoPaused :: "env \<Rightarrow> state \<Rightarrow> bool" where
  "checkIfAutoPaused e s =
    (if \<not> autoPaused s \<or> millis e - pauseNow s \<ge> pauseDelay s then False else True)"

text \<open>
  The interval check of \<^verbatim>\<open>time_loop\<close> (lines 751 to 812), for a clock reading
  \<open>dt\<close>. The preset index is an \<^verbatim>\<open>int8_t\<close>; the present display is refreshed by
  \<^verbatim>\<open>setDateTimeDiff\<close>, recorded in the trace.
\<close>

definition autoInterval_due :: "env \<Rightarrow> DateTime \<Rightarrow> state \<Rightarrow> bool" where
  "autoInterval_due e dt s =
    (let minNext = (if dt_minute dt = 59 then 0 else dt_minute dt + 1) in
     dt_second dt = 59 \<and>
     (\<not> autoPaused s \<or> millis e - pauseNow s \<ge> pauseDelay s) \<and>
     autoTimeInterval e \<noteq> 0 \<and>
     minNext smod autoTimeInterval e = 0)"

definition autoInterval_step :: "env \<Rightarrow> DateTime \<Rightarrow> state \<Rightarrow> error + state" where
  "autoInterval_step e dt s =
    (if autoInterval_due e dt s then
       (if \<not> autoIntDone s then
          (let s = s\<lparr>autoPaused := False, autoIntDone := True\<rparr>;
               a = autoTime s + 1;
               a = (if a > 7 then 0 else a);
               s = s\<lparr>autoTime := a\<rparr>
           in case (at_index destinationTimes a, at_index departedTimes a) of
                (Inr dst, Inr dep) \<Rightarrow>
                  (case (setFromStruct dst (destinationTime s), setFromStruct dep (departedTime s)) of
                     (Inr cdst, Inr cdep) \<Rightarrow>
                        Inr (emit ([Call ''allOff'', Call ''presentTime.setDateTimeDiff'']
                                   @ (if FPBUnitIsOn s then [Call ''animate''] else []))
                              (s\<lparr>destinationTime := cdst, departedTime := cdep\<rparr>))
                   | (Inl err, _) \<Rightarrow> Inl err
                   | (_, Inl err) \<Rightarrow> Inl err)
              | (Inl err, _) \<Rightarrow> Inl err
              | (_, Inl err) \<Rightarrow> Inl err)
        else Inr s)
     else Inr (s\<lparr>autoIntDone := False\<rparr>))"

subsection \<open>\<^verbatim>\<open>timeTravel\<close> and the year roll-over\<close>


text \<open>
  Modelled from the spec: how the present display is derived from the hardware clock
  (\<^verbatim>\<open>clockDisplay::setDateTimeDiff\<close> is not under src/). Glossary: the virtual
  offset is "the signed minute delta applied to true time to produce the present
  display"; \<open>timeDiffUp\<close> is documented in \<^verbatim>\<open>tc_time.cpp\<close> as "true = add
  difference, false = subtract difference".
\<close>

definition applyTimeDifference :: "state \<Rightarrow> 64 word \<Rightarrow> 64 word" where
  "applyTimeDifference s rtcTime =
    (if timeDiffUp s then rtcTime + timeDifference s else rtcTime - timeDifference s)"

text \<open>
  The roll-over branch of \<^verbatim>\<open>time_loop\<close> (lines 652 to 690). \<^verbatim>\<open>rtc.adjust\<close>
  rewrites the hardware clock.
\<close>

definition rollover :: "state \<Rightarrow> state" where
  "rollover s =
    (let dt = myrtcnow s in
     if dt_year dt - cd_yearoffset (presentTime s) > 9999 then
       (let s = emit [Call ''Serial.println''] s;
            s = (if timeDifference s \<noteq> 0 then
                   s\<lparr>timeDifference := 5255474400 - timeDifference s,
                     timeDiffUp := \<not> timeDiffUp s\<rparr>
                 else s);
            s = s\<lparr>presentTime := setYearOffset 2016 (presentTime s)\<rparr>;
            dt = myrtcnow s;
            s = s\<lparr>rtc := dt\<lparr>dt_year := 2017\<rparr>\<rparr>;
            s = (if timetravelPersistent s then emit [Save ''presentTime''] s
                 else emit [Call ''presentTime.saveYOffs''] s)
        in s)
     else s)"

subsection \<open>The keypad buffer\<close>


definition NUL :: char where
  "NUL = CHR 0x00"

definition cstr :: "char list \<Rightarrow> char list" where
  "cstr buf = takeWhile (\<lambda>c. c \<noteq> NUL) buf"

definition strlen :: "char list \<Rightarrow> error + int" where
  "strlen buf = (if NUL \<in> set buf then Inr (int (length (cstr buf))) else Inl OutOfBounds)"


text \<open>
  \<^verbatim>\<open>read2digs\<close> returns \<^verbatim>\<open>uint8_t\<close>: the value is reduced modulo 256.
\<close>

definition read2digs :: "char list \<Rightarrow> nat \<Rightarrow> int" where
  "read2digs buf idx =
    (((of_char (buf ! idx) - of_char CHR ''0'') * 10
      + (of_char (buf ! (idx + 1)) - of_char CHR ''0'')) mod 256)"

text \<open>C's \<^verbatim>\<open>atoi\<close>: white space, an optional sign, then decimal digits.\<close>

definition is_space :: "char \<Rightarrow> bool" where
  "is_space c = (c \<in> set [CHR '' '', CHR 0x09, CHR 0x0A, CHR 0x0B, CHR 0x0C, CHR 0x0D])"

definition is_digit :: "char \<Rightarrow> bool" where
  "is_digit c = ((48::nat) \<le> of_char c \<and> of_char c \<le> (57::nat))"

fun atoi_digits :: "int \<Rightarrow> char list \<Rightarrow> int" where
  "atoi_digits acc [] = acc"
| "atoi_digits acc (c # cs) =
    (if is_digit c then atoi_digits (acc * 10 + (of_char c - 48)) cs else acc)"

definition atoi :: "char list \<Rightarrow> int" where
  "atoi str =
    (case dropWhile is_space str of
       [] \<Rightarrow> 0
     | c # cs \<Rightarrow>
        if c = CHR ''-'' then - atoi_digits 0 cs
        else if c = CHR ''+'' then atoi_digits 0 cs
        else atoi_digits 0 (c # cs))"

subsection \<open>Beep timer\<close>

definition setBeepMode :: "int \<Rightarrow> env \<Rightarrow> state \<Rightarrow> state" where
  "setBeepMode mode e s =
    (if mode = 0 then s\<lparr>muteBeep := True, beepMode := 0, beepTimer := False\<rparr>
     else if mode = 1 then s\<lparr>muteBeep := False, beepMode := 1, beepTimer := False\<rparr>
     else if mode = 2 then
       (let s = (if beepMode s = 1 then s\<lparr>beepTimerNow := millis e, beepTimer := True\<rparr> else s)
        in s\<lparr>beepMode := 2, beepTimeout := BEEPM2_SECS e * 1000\<rparr>)
     else if mode = 3 then
       (let s = (if beepMode s = 1 then s\<lparr>beepTimerNow := millis e, beepTimer := True\<rparr> else s)
        in s\<lparr>beepMode := 3, beepTimeout := BEEPM3_SECS e * 1000\<rparr>)
     else s)"

definition startBeepTimer :: "env \<Rightarrow> state \<Rightarrow> state" where
  "startBeepTimer e s =
    (if beepMode s \<ge> 2 then s\<lparr>beepTimer := True, beepTimerNow := millis e, muteBeep := False\<rparr>
     else s)"

subsection \<open>Committing an entry: the branches of \<^verbatim>\<open>keypad_loop\<close>\<close>

text \<open>
  The local variables \<^verbatim>\<open>validEntry\<close>, \<^verbatim>\<open>invalidEntry\<close> and
  \<^verbatim>\<open>enterInterruptsMusic\<close> of the commit, and its three ways to end: it goes on
  to play the sound, it restarts the device (\<^verbatim>\<open>esp_restart\<close> does not return), or it
  reads outside a table.
\<close>

record entry =
  validEntry :: bool
  invalidEntry :: bool
  enterInterruptsMusic :: bool

datatype outcome = Continue entry state | Restart state | Fault error

definition entry0 :: entry where
  "entry0 = \<lparr>validEntry = False, invalidEntry = False, enterInterruptsMusic = False\<rparr>"

definition valid :: entry where
  "valid = entry0\<lparr>validEntry := True\<rparr>"

definition invalid :: entry where
  "invalid = entry0\<lparr>invalidEntry := True\<rparr>"

text \<open>
  Texts shown on the destination display are abbreviated in the trace; their layout
  (and \<^verbatim>\<open>IS_ACAR_DISPLAY\<close>) is not modelled.
\<close>

definition showSpec :: "string \<Rightarrow> state \<Rightarrow> state" where
  "showSpec txt s = (emit [ShowText txt] s)\<lparr>specDisp := 10\<rparr>"

text \<open>Two digits: status queries (\<^verbatim>\<open>DATELEN_ALSH\<close>).\<close>

definition enter_alsh :: "env \<Rightarrow> state \<Rightarrow> outcome" where
  "enter_alsh e s =
    (let code = atoi (cstr (dateBuffer s)) mod 256 in
     if code = 11 then Continue valid (showSpec ''alarm'' (emit [Call ''getAlarm''] s))
     else if code = 44 then Continue valid (showSpec ''timer'' s)
     else if code = 77 then Continue valid (showSpec ''reminder'' s)
     else if (code = 88 \<or> code = 55) \<and> haveMusic e then Continue valid (showSpec ''music'' s)
     else Continue invalid s)"

text \<open>
  \<^verbatim>\<open>setupWCMode\<close>. \<^verbatim>\<open>load\<close> reads a display's stored time
  (\<open>stored_destination\<close>, \<open>stored_departed\<close>).
\<close>

definition setupWCMode :: "env \<Rightarrow> state \<Rightarrow> error + state" where
  "setupWCMode e s =
    (if isWcMode e (trace s) then Inr (emit [Call ''setDatesTimesWC''] s)
     else if autoTimeInterval e = 0 \<or> (timetravelPersistent s \<and> checkIfAutoPaused e s) then
       (let s = (if WcHaveTZ1 e then
                   emit [Call ''destinationTime.load''] (s\<lparr>destinationTime := stored_destination e\<rparr>)
                 else s);
            s = (if WcHaveTZ2 e then
                   emit [Call ''departedTime.load''] (s\<lparr>departedTime := stored_departed e\<rparr>)
                 else s)
        in Inr s)
     else
       (case (at_index destinationTimes (autoTime s), at_index departedTimes (autoTime s)) of
          (Inr dst, Inr dep) \<Rightarrow>
            (case (if WcHaveTZ1 e then setFromStruct dst (destinationTime s)
                   else Inr (destinationTime s)) of
               Inl err \<Rightarrow> Inl err
             | Inr cdst \<Rightarrow>
                (case (if WcHaveTZ2 e then setFromStruct dep (departedTime s)
                       else Inr (departedTime s)) of
                   Inl err \<Rightarrow> Inl err
                 | Inr cdep \<Rightarrow> Inr (s\<lparr>destinationTime := cdst, departedTime := cdep\<rparr>)))
        | (Inl err, _) \<Rightarrow> Inl err
        | (_, Inl err) \<Rightarrow> Inl err))"

definition needDep :: "state \<Rightarrow> state" where
  "needDep s = (emit [Call ''departedTime.off''] s)\<lparr>needDepTime := True\<rparr>"

text \<open>Three digits: special codes (\<^verbatim>\<open>DATELEN_CODE\<close>).\<close>

definition enter_code :: "env \<Rightarrow> state \<Rightarrow> outcome" where
  "enter_code e s =
    (let code = atoi (cstr (dateBuffer s)) mod 65536;
         code = (if code = 113 \<and> (\<not> haveRcMode e \<or> \<not> haveWcMode e) then
                   (if haveRcMode e then 111 else 112)
                 else code)
     in
     if code = 111 \<and> TC_HAVETEMP e then
       (if haveRcMode e then
          (let s = emit [Call ''toggleRcMode''] s;
               s = (if haveHum e \<or> isWcMode e (trace s) then needDep s else s)
           in Continue valid s)
        else Continue invalid s)
     else if code = 112 then
       (if haveWcMode e then
          (let s = emit [Call ''toggleWcMode''] s;
               s = (if WcHaveTZ2 e \<or> isRcMode e (trace s) then needDep s else s)
           in case setupWCMode e s of
                Inl err \<Rightarrow> Fault err
              | Inr s \<Rightarrow> Continue valid s)
        else Continue invalid s)
     else if code = 113 then
       (let s = needDep s;
            s = emit [Call ''toggleRcMode'', Call ''enableWcMode''] s
        in case setupWCMode e s of
             Inl err \<Rightarrow> Fault err
           | Inr s \<Rightarrow> Continue valid s)
     else if code = 222 \<or> code = 555 then
       (if haveMusic e then
          Continue valid (showSpec ''shuffle'' (emit [Call ''mp_makeShuffle''] s))
        else Continue invalid s)
     else if code = 888 then
       (if haveMusic e then Continue valid (showSpec ''next'' (emit [Call ''mp_gotonum''] s))
        else Continue invalid s)
     else if code = 440 then
       Continue valid (((emit [ShowText ''timer off''] s)\<lparr>ctDown := 0\<rparr>)\<lparr>specDisp := 10\<rparr>)
     else if code = 770 then
       Continue valid
         (showSpec ''reminder off''
            (emit [Call ''saveReminder'']
               (s\<lparr>remMonth := 0, remDay := 0, remHour := 0, remMin := 0\<rparr>)))
     else if code = 777 then Continue valid (showSpec ''time to reminder'' s)
     else if code = 0 \<or> code = 1 \<or> code = 2 \<or> code = 3 then
       (let s = setBeepMode code e s;
            s = emit [ShowText ''beep mode''] s
        in Continue entry0 (s\<lparr>enterDelay := ENTER_DELAY e, specDisp := 10\<rparr>))
     else Continue invalid s)"

text \<open>Five digits: the restart code (\<^verbatim>\<open>DATELEN_INT\<close>).\<close>

definition enter_int :: "env \<Rightarrow> state \<Rightarrow> outcome" where
  "enter_int e s =
    (if take 5 (dateBuffer s) = ''64738'' then
       Restart (emit [Call ''mp_stop'', Call ''stopAudio'', Call ''allOff'',
                      Call ''destinationTime.resetBrightness'', ShowText ''REBOOTING'',
                      Call ''destinationTime.on'', Call ''esp_restart''] s)
     else Continue invalid s)"

text \<open>Six digits: alarm, reminder, or a song number (\<^verbatim>\<open>DATELEN_QALM\<close>).\<close>

definition enter_qalm :: "env \<Rightarrow> state \<Rightarrow> outcome" where
  "enter_qalm e s =
    (let buf = dateBuffer s; code = read2digs buf 0 in
     if code = 11 then
       (let aHour = read2digs buf 2; aMin = read2digs buf 4 in
        if aHour \<le> 23 \<and> aMin \<le> 59 then
          (let s = (if alarmHour s \<noteq> aHour \<or> alarmMinute s \<noteq> aMin \<or> \<not> alarmOnOff s then
                      emit [Call ''saveAlarm'']
                        (s\<lparr>alarmHour := aHour, alarmMinute := aMin, alarmOnOff := True\<rparr>)
                    else s)
           in Continue valid (showSpec ''alarm'' s))
        else Continue invalid s)
     else if code = 77 then
       (let sMon = read2digs buf 2; sDay = read2digs buf 4 in
        if sMon \<le> 12 \<and> (sDay \<ge> 1 \<and> sDay \<le> 31) then
          (case (if sMon = 0 then Inr True
                 else case daysInMonth sMon 2000 of Inl err \<Rightarrow> Inl err | Inr n \<Rightarrow> Inr (sDay \<le> n)) of
             Inl err \<Rightarrow> Fault err
           | Inr True \<Rightarrow>
              (let s = (if remMonth s \<noteq> sMon \<or> remDay s \<noteq> sDay then
                          (let s = s\<lparr>remMonth := sMon, remDay := sDay\<rparr>;
                               s = (if remHour s = 0 \<and> remMin s = 0 then s\<lparr>remHour := 9\<rparr> else s)
                           in emit [Call ''saveReminder''] s)
                        else s)
               in Continue valid (showSpec ''reminder'' s))
           | Inr False \<Rightarrow> Continue invalid s)
        else Continue invalid s)
     else if haveMusic e \<and> take 3 buf = ''888'' then
       Continue valid (showSpec ''next'' (emit [Call ''mp_gotonum''] s))
     else Continue invalid s)"

text \<open>Four digits starting with 44: the count-down timer.\<close>

definition enter_ctdown :: "env \<Rightarrow> state \<Rightarrow> outcome" where
  "enter_ctdown e s =
    (let mins = read2digs (dateBuffer s) 2 in
     if mins = 0 then Continue valid (showSpec ''timer off'' (s\<lparr>ctDown := 0\<rparr>))
     else
       Continue valid
         (showSpec ''timer''
            (s\<lparr>ctDown := word_of_int (mins * 60 * 1000), ctDownNow := millis e\<rparr>)))"

text \<open>Ten digits: a full reminder (\<^verbatim>\<open>DATELEN_REM\<close>).\<close>

definition enter_rem :: "env \<Rightarrow> state \<Rightarrow> outcome" where
  "enter_rem e s =
    (let buf = dateBuffer s in
     if read2digs buf 0 = 77 then
       (let sMon = read2digs buf 2; sDay = read2digs buf 4;
            sHour = read2digs buf 6; sMin = read2digs buf 8
        in
        if sMon \<le> 12 \<and> (sDay \<ge> 1 \<and> sDay \<le> 31) \<and> sHour \<le> 23 \<and> sMin \<le> 59 then
          (case (if sMon = 0 then Inr True
                 else case daysInMonth sMon 2000 of Inl err \<Rightarrow> Inl err | Inr n \<Rightarrow> Inr (sDay \<le> n)) of
             Inl err \<Rightarrow> Fault err
           | Inr True \<Rightarrow>
              (let s = (if remMonth s \<noteq> sMon \<or> remDay s \<noteq> sDay \<or> remHour s \<noteq> sHour
                           \<or> remMin s \<noteq> sMin then
                          emit [Call ''saveReminder'']
                            (s\<lparr>remMonth := sMon, remDay := sDay, remHour := sHour, remMin := sMin\<rparr>)
                        else s)
               in Continue valid (showSpec ''reminder'' s))
           | Inr False \<Rightarrow> Continue invalid s)
        else Continue invalid s)
     else Continue invalid s)"

text \<open>
  Four, eight or twelve digits: a time, a date, or both, written to the destination
  display (lines 970 to 1117). The calls of the destination's setters, in the order
  of lines 1066 to 1070:
\<close>

datatype setter = SetYear int | SetMonth int | SetDay int | SetHour int | SetMinute int

definition date_setters :: "int \<Rightarrow> int \<Rightarrow> int \<Rightarrow> int \<Rightarrow> int \<Rightarrow> setter list" where
  "date_setters setYr setMon setDy setHr setMn =
    (if setYr \<ge> 0 then [SetYear setYr] else []) @
    (if setMon > 0 then [SetMonth setMon] else []) @
    (if setDy > 0 then [SetDay setDy] else []) @
    (if setHr \<ge> 0 then [SetHour setHr] else []) @
    (if setMn \<ge> 0 then [SetMinute setMn] else [])"

fun apply_setter :: "setter \<Rightarrow> clockDisplay \<Rightarrow> error + clockDisplay" where
  "apply_setter (SetYear v) c = Inr (setYear v c)"
| "apply_setter (SetMonth v) c = Inr (setMonth v c)"
| "apply_setter (SetDay v) c = setDay v c"
| "apply_setter (SetHour v) c = Inr (setHour v c)"
| "apply_setter (SetMinute v) c = Inr (setMinute v c)"

fun apply_setters :: "setter list \<Rightarrow> clockDisplay \<Rightarrow> error + clockDisplay" where
  "apply_setters [] c = Inr c"
| "apply_setters (x # xs) c =
    (case apply_setter x c of Inl err \<Rightarrow> Inl err | Inr c \<Rightarrow> apply_setters xs c)"

text \<open>
  The parsed fields: \<open>- 1\<close> marks a field the entry does not give. Month and day
  are clamped here (lines 1004 to 1013); "Hour and min are checked in clockdisplay".
\<close>

definition parse_date :: "int \<Rightarrow> char list \<Rightarrow> error + (int \<times> int \<times> int \<times> int \<times> int)" where
  "parse_date strLen buf =
    (let temp1 = read2digs buf 0; temp2 = read2digs buf 2 in
     if strLen = 4 then Inr (- 1, - 1, - 1, temp1, temp2)
     else
       (let setMon = temp1; setDy = temp2;
            setYr = read2digs buf 4 * 100 + read2digs buf 6;
            setHr = (if strLen = 12 then read2digs buf 8 else - 1);
            setMn = (if strLen = 12 then read2digs buf 10 else - 1);
            setMon = (if setMon < 1 then 1 else setMon);
            setMon = (if setMon > 12 then 12 else setMon);
            setDy = (if setDy < 1 then 1 else setDy)
        in case daysInMonth setMon setYr of
             Inl err \<Rightarrow> Inl err
           | Inr n \<Rightarrow> Inr (setYr, setMon, (if setDy > n then n else setDy), setHr, setMn)))"

text \<open>
  The four masked signatures; \<open>getHrs1KYrs\<close> is not under src/. A time-only entry
  is never special.
\<close>

definition special_of :: "env \<Rightarrow> int \<Rightarrow> int \<Rightarrow> int \<Rightarrow> int \<Rightarrow> int \<Rightarrow> int" where
  "special_of e strLen setYr setMon setDy setHr =
    (if strLen = 4 then 0
     else
       (let spTmp = (push_bit 16 (word_of_int setYr) OR word_of_int (setMon * 256)
                       OR word_of_int setDy :: 32 word)
        in if (spTmp XOR getHrs1KYrs e 7) = 70667637 then 1
           else if (spTmp XOR getHrs1KYrs e 8) = 59572453 then
             (if setHr \<ge> 9 \<and> setHr \<le> 12 then 2 else 0)
           else if (spTmp XOR getHrs1KYrs e 6) = 97681642 then 3
           else if (spTmp XOR getHrs1KYrs e 8) = 65998071 then 4
           else 0))"

text \<open>Lines 1043 to 1063: what a special date shows or plays.\<close>

definition specialEntry :: "int \<Rightarrow> entry \<Rightarrow> state \<Rightarrow> entry \<times> state" where
  "specialEntry special en s =
    (if special = 1 then
       (en\<lparr>validEntry := True\<rparr>, (emit [ShowText ''special''] s)\<lparr>specDisp := 1\<rparr>)
     else if special = 2 then
       (en, (emit [PlayFile ''/ee2.mp3'' [PA_CHECKNM, PA_INTRMUS]] s)\<lparr>enterDelay := 600\<rparr>)
     else if special = 3 then
       (en, (emit [PlayFile ''/ee3.mp3'' [PA_CHECKNM, PA_INTRMUS]] s)\<lparr>enterDelay := 500\<rparr>)
     else if special = 4 then
       (en, (emit [PlayFile ''/ee4.mp3'' [PA_CHECKNM, PA_INTRMUS]] s)\<lparr>enterDelay := 3000\<rparr>)
     else (en\<lparr>validEntry := True\<rparr>, s))"

text \<open>Lines 1079 to 1110: "Disable rc&wc modes".\<close>

definition disableModes :: "env \<Rightarrow> state \<Rightarrow> error + state" where
  "disableModes e s =
    (let s = (if TC_HAVETEMP e \<and> isRcMode e (trace s)
                 \<and> (haveHum e \<or> isWcMode e (trace s)) then needDep s else s);
         s = emit [Call ''enableRcMode''] s
     in if isWcMode e (trace s) \<and> WcHaveTZ1 e then
          (case
             (if WcHaveTZ2 e then
                (if autoTimeInterval e = 0
                    \<or> (timetravelPersistent s \<and> checkIfAutoPaused e s) then
                   Inr (needDep (emit [Call ''departedTime.load'']
                          (s\<lparr>departedTime := stored_departed e\<rparr>)))
                 else
                   (case at_index departedTimes (autoTime s) of
                      Inl err \<Rightarrow> Inl err
                    | Inr dep \<Rightarrow>
                       (case setFromStruct dep (departedTime s) of
                          Inl err \<Rightarrow> Inl err
                        | Inr cdep \<Rightarrow> Inr (needDep (s\<lparr>departedTime := cdep\<rparr>)))))
              else Inr s) of
             Inl err \<Rightarrow> Inl err
           | Inr s \<Rightarrow> Inr (emit [Call ''enableWcMode''] s))
        else Inr s)"

definition enter_date :: "env \<Rightarrow> int \<Rightarrow> state \<Rightarrow> outcome" where
  "enter_date e strLen s =
    (case parse_date strLen (dateBuffer s) of
       Inl err \<Rightarrow> Fault err
     | Inr (setYr, setMon, setDy, setHr, setMn) \<Rightarrow>
        (let special = special_of e strLen setYr setMon setDy setHr;
             (en, s) = specialEntry special (entry0\<lparr>enterInterruptsMusic := True\<rparr>) s
         in case apply_setters (date_setters setYr setMon setDy setHr setMn) (destinationTime s) of
              Inl err \<Rightarrow> Fault err
            | Inr dst \<Rightarrow>
               (let s = s\<lparr>destinationTime := dst\<rparr>;
                    s = (if timetravelPersistent s then emit [Save ''destinationTime''] s else s)
                in case disableModes e s of
                     Inl err \<Rightarrow> Fault err
                   | Inr s \<Rightarrow> Continue en (startBeepTimer e (pauseAuto e s)))))"

subsection \<open>Committing an entry: classification, sound and reset\<close>

definition classify :: "env \<Rightarrow> int \<Rightarrow> state \<Rightarrow> outcome" where
  "classify e strLen s =
    (if strLen \<noteq> 12 \<and> strLen \<noteq> 10 \<and> strLen \<noteq> 8 \<and> (strLen < 2 \<or> strLen > 6) then
       Continue invalid s
     else if strLen = 2 then enter_alsh e s
     else if strLen = 3 then enter_code e s
     else if strLen = 5 then enter_int e s
     else if strLen = 6 then enter_qalm e s
     else if strLen = 4 \<and> read2digs (dateBuffer s) 0 = 44 then enter_ctdown e s
     else if strLen = 10 then enter_rem e s
     else enter_date e strLen s)"

text \<open>Lines 1119 to 1129: the confirmation or the error sound.\<close>

definition entrySound :: "env \<Rightarrow> entry \<Rightarrow> state \<Rightarrow> state" where
  "entrySound e en s =
    (let fl = [PA_CHECKNM] @ (if enterInterruptsMusic en then [PA_INTRMUS] else []) @ [PA_ALLOWSD] in
     if validEntry en then
       (emit [PlayFile ''/enter.mp3'' fl] s)\<lparr>enterDelay := ENTER_DELAY e\<rparr>
     else if invalidEntry en then
       (let s = (emit [PlayFile ''/baddate.mp3'' fl] s)\<lparr>enterDelay := 400\<rparr> in
        if \<not> enterInterruptsMusic en \<and> mpActive e then showSpec ''ERROR'' s else s)
     else s)"

text \<open>Lines 1131 to 1133: "Prepare for next input".\<close>

definition resetBuffer :: "state \<Rightarrow> state" where
  "resetBuffer s = s\<lparr>dateIndex := 0, dateBuffer := (dateBuffer s)[0 := NUL]\<rparr>"

text \<open>The block \<^verbatim>\<open>if(isEnterKeyPressed)\<close> of \<^verbatim>\<open>keypad_loop\<close>.\<close>

definition commitEntry :: "env \<Rightarrow> state \<Rightarrow> outcome" where
  "commitEntry e s =
    (if length (dateBuffer s) \<noteq> 14 then Fault OutOfBounds
     else
       (case strlen (dateBuffer s) of
          Inl err \<Rightarrow> Fault err
        | Inr strLen \<Rightarrow>
           (let s = s\<lparr>isEnterKeyPressed := False, enterWasPressed := True\<rparr>;
                s = emit [Call ''cancelETTAnim'', Call ''destinationTime.off''] s;
                s = s\<lparr>timeNow := millis e\<rparr>
            in case classify e strLen s of
                 Continue en s \<Rightarrow> Continue en (resetBuffer (entrySound e en s))
               | Restart s \<Rightarrow> Restart s
               | Fault err \<Rightarrow> Fault err)))"








subsection \<open>A run of interval checks\<close>

fun interval_checks :: "(env \<times> DateTime) list \<Rightarrow> state \<Rightarrow> error + state" where
  "interval_checks [] s = Inr s"
| "interval_checks ((e, dt) # cs) s =
    (case autoInterval_step e dt s of Inl err \<Rightarrow> Inl err | Inr s \<Rightarrow> interval_checks cs s)"

subsection \<open>A sample state\<close>

text \<open>
  The state after boot with the first presets loaded, on 5 October 2022 at 12:30, and
  the surroundings of a pass at a given millisecond count.
\<close>

definition clk :: "int \<Rightarrow> int \<Rightarrow> int \<Rightarrow> int \<Rightarrow> int \<Rightarrow> int \<Rightarrow> clockDisplay" where
  "clk y mo d h mi yo =
    \<lparr>cd_year = y, cd_month = mo, cd_day = d, cd_hour = h, cd_minute = mi, cd_yearoffset = yo\<rparr>"

definition sample_state :: state where
  "sample_state =
    \<lparr>presentTime = clk 2022 10 5 12 30 0, destinationTime = clk 1985 10 26 1 21 0,
     departedTime = clk 1985 10 26 1 20 0,
     rtc = \<lparr>dt_year = 2022, dt_month = 10, dt_day = 5, dt_hour = 12, dt_minute = 30,
            dt_second = 7\<rparr>,
     timeDifference = 0, timeDiffUp = False, timetravelPersistent = True,
     autoPaused = False, pauseNow = 0, pauseDelay = 1800000, autoIntDone = False, autoTime = 0,
     timetravelNow = 0, timeTraveled = False, timeTravelP1 = 0, timetravelP1Now = 0,
     timetravelP1Delay = 0, FPBUnitIsOn = True, startup = False,
     dateBuffer = replicate 14 NUL, dateIndex = 0, lastKeyPressed = 0,
     isEnterKeyPressed = False, isEnterKeyHeld = False, enterWasPressed = False,
     needDepTime = False, timeNow = 0, enterDelay = 0, specDisp = 0,
     alarmHour = 0, alarmMinute = 0, alarmOnOff = False,
     remMonth = 0, remDay = 0, remHour = 0, remMin = 0, ctDown = 0, ctDownNow = 0,
     muteBeep = False, beepMode = 0, beepTimer = False, beepTimerNow = 0, beepTimeout = 0,
     trace = []\<rparr>"

definition sample_env :: "32 word \<Rightarrow> env" where
  "sample_env now =
    \<lparr>millis = now, autoTimeInterval = 5, TT_P1_DELAY_P1 = 1400, ENTER_DELAY = 600,
     BEEPM2_SECS = 30, BEEPM3_SECS = 60, TC_HAVETEMP = False, timeTravelP0 = False,
     timeTravelRE = False, getHrs1KYrs = (\<lambda>i. 0), haveMusic = False, mpActive = False,
     haveRcMode = False, haveWcMode = False, WcHaveTZ1 = False, WcHaveTZ2 = False,
     haveHum = False, isRcMode = (\<lambda>t. False), isWcMode = (\<lambda>t. False),
     stored_destination = clk 1985 10 26 1 21 0, stored_departed = clk 1985 10 26 1 20 0\<rparr>"

text \<open>The sample state with a typed entry in the buffer.\<close>

definition typed :: "string \<Rightarrow> state" where
  "typed str =
    sample_state\<lparr>dateBuffer := str @ replicate (14 - length str) NUL,
                 dateIndex := int (length str), isEnterKeyPressed := True\<rparr>"

subsection \<open>Reading an outcome\<close>


definition outcome_state :: "outcome \<Rightarrow> state option" where
  "outcome_state r = (case r of Continue en s \<Rightarrow> Some s | Restart s \<Rightarrow> Some s | Fault err \<Rightarrow> None)"

subsection \<open>Entries that fail validation\<close>








subsection \<open>States in which \<^verbatim>\<open>timeTravel\<close> reads every table inside its bounds\<close>







subsection \<open>The time the present display shows, in minutes\<close>

text \<open>
  Modelled from the spec: "Effective time: the date-time a clock displays after applying
  its virtual year offset (stored RTC year and displayed year may differ)". As a 64-bit
  count of minutes it is the count \<^verbatim>\<open>dateToMins\<close> gives (\<open>linear_minutes\<close>), continued
  past the year 9999, where \<^verbatim>\<open>dateToMins\<close> has no table entry.
\<close>

definition effective_minutes :: "DateTime \<Rightarrow> int \<Rightarrow> 64 word" where
  "effective_minutes dt yOffs =
    word_of_nat (linear_minutes (dt_year dt - yOffs) (dt_month dt) (dt_day dt) (dt_hour dt)
      (dt_minute dt))"

text \<open>
  Modelled from the spec: "Virtual offset: the signed minute delta (\<^verbatim>\<open>timeDifference\<close>
  with direction flag \<^verbatim>\<open>timeDiffUp\<close>) applied to true time to produce the present
  display", in the 64-bit arithmetic of \<open>applyTimeDifference\<close>.
\<close>

definition displayed_minutes :: "state \<Rightarrow> 64 word" where
  "displayed_minutes s =
    applyTimeDifference s (effective_minutes (rtc s) (cd_yearoffset (presentTime s)))"

text \<open>
  The sample state with the year of the hardware clock, the year offset and the
  virtual offset replaced.
\<close>

definition rollover_state :: "int \<Rightarrow> int \<Rightarrow> bool \<Rightarrow> 64 word \<Rightarrow> state" where
  "rollover_state rtcYear yOffs up diff =
    sample_state\<lparr>rtc := (rtc sample_state)\<lparr>dt_year := rtcYear\<rparr>,
                 presentTime := (presentTime sample_state)\<lparr>cd_yearoffset := yOffs\<rparr>,
                 timeDiffUp := up, timeDifference := diff\<rparr>"

subsection \<open>The two phases of \<^verbatim>\<open>minsToDate\<close>\<close>

text \<open>
  For the proofs, \<open>minsToDate\<close> is read as two phases: the years (block search and
  year loop), then month, day, hour and minute.
\<close>

definition split_years :: "64 word \<Rightarrow> (int \<times> 32 word) option" where
  "split_years total64 =
    (let d = find1k total64 9;
         (total64, c, year) =
            (if d > 0 then (total64 - mins1kYears ! nat d, d * 1000, d * 1000)
             else (total64, 1, 1))
     in year_loop c year (ucast total64 :: 32 word))"

definition split_fields :: "int \<Rightarrow> 32 word \<Rightarrow> int \<times> int \<times> int \<times> int \<times> int" where
  "split_fields year total32 =
    (let temp = (if isLeapYear year then 1 else 0);
         c = month_loop temp 1 total32;
         month = int c;
         total32 = total32 - word_of_nat (mon_yday ! temp ! (c - 1)) * 24 * 60;
         temp = uint total32 div (24 * 60);
         day = temp + 1;
         total32 = total32 - word_of_int (temp * (24 * 60));
         temp = uint total32 div 60;
         hour = temp;
         minute = uint (total32 - word_of_int (temp * 60))
     in (year, month, day, hour, minute))"

section \<open>Properties\<close>

subsection \<open>Leap years\<close>

lemma isLeapYear_False: "isLeapYear year = False"
  by (simp add: isLeapYear_def)

subsection \<open>The loops of the codec return\<close>

lemma dateToMins_loop_eq:
  "dateToMins_loop c d t = Some (t + 8760 * word_of_nat (nat (c - d)))"
proof (induction "nat (c - d)" arbitrary: c t)
  case 0
  then show ?case by (subst dateToMins_loop.simps) simp
next
  case (Suc n)
  then have gt: "c > d" and n: "n = nat ((c - 1) - d)" by linarith+
  have nat: "nat (c - d) = Suc (nat (c - 1 - d))" using gt by linarith
  show ?case
    by (subst dateToMins_loop.simps) (simp add: gt Suc.hyps(1)[OF n] isLeapYear_False nat algebra_simps)
qed

lemma year_loop_eq:
  "year_loop c year t = Some (year + int (unat t div 525600), word_of_nat (unat t mod 525600))"
proof (induction "unat t" arbitrary: c year t rule: less_induct)
  case less
  show ?case
  proof (cases "t < 525600")
    case True
    then have "unat t < 525600" by (simp add: word_less_nat_alt)
    then show ?thesis using True
      by (subst year_loop.simps) (simp add: isLeapYear_False)
  next
    case False
    then have ge: "525600 \<le> unat t" by (simp add: word_less_nat_alt)
    then have le: "(525600 :: 32 word) \<le> t" by (simp add: word_le_nat_alt)
    have u: "unat (t - 525600) = unat t - 525600"
      using le by (simp add: unat_sub)
    have lt: "unat (t - 525600) < unat t" using u ge by simp
    have d: "unat t div 525600 = Suc ((unat t - 525600) div 525600)"
      using ge by (simp add: le_div_geq)
    have m: "unat t mod 525600 = (unat t - 525600) mod 525600"
      using ge by (simp add: le_mod_geq)
    show ?thesis
      using False less.hyps[OF lt, of "c + 1" "year + 1"]
      by (subst year_loop.simps) (simp add: isLeapYear_False u d m)
  qed
qed

subsection \<open>\<^verbatim>\<open>dateToMins\<close> on the supported range\<close>

lemma years_hours:
  assumes y: "1 \<le> year" "year \<le> 9999"
  shows "\<exists>h1k. at_index hours1kYears (year sdiv 1000) = Inr h1k \<and>
     dateToMins_loop year (if h1k \<noteq> 0 then (year sdiv 1000) * 1000 else 1) h1k
       = Some (word_of_nat (nat (year - 1) * 8760))"
proof -
  have sd: "year sdiv 1000 = year div 1000"
    using y by (simp add: signed_divide_int_def)
  define k where "k = year div 1000"
  have kb: "0 \<le> k" "k \<le> 9" using y by (simp_all add: k_def)
  have yk: "1000 * k \<le> year" "year < 1000 * k + 1000"
    unfolding k_def by (simp_all add: algebra_simps) 
  have n: "nat (year - 1) = nat (year - 1000 * k) + nat (1000 * k - 1)" if "1 \<le> k"
    using yk that by linarith
  consider "k = 0" | "k = 1" | "k = 2" | "k = 3" | "k = 4" | "k = 5" | "k = 6" | "k = 7"
    | "k = 8" | "k = 9"
    using kb by atomize_elim arith
  then show ?thesis
    using y n
    by cases (simp_all add: sd k_def[symmetric] at_index_def hours1kYears_def
        dateToMins_loop_eq algebra_simps)
qed

lemma valid_dateD:
  assumes "valid_date year month day hour minute"
  shows "1 \<le> year" "year \<le> 9999" "1 \<le> month" "month \<le> 12" "1 \<le> day"
    "day \<le> monthDays ! nat (month - 1)" "0 \<le> hour" "hour \<le> 23" "0 \<le> minute" "minute \<le> 59"
  using assms
  by (auto simp add: valid_date_def daysInMonth_def isLeapYear_False at_index_def
      split: if_splits)

lemma unat_of_nat_64: "n < 18446744073709551616 \<Longrightarrow> unat (word_of_nat n :: 64 word) = n"
  by (simp add: unat_of_nat)

lemma unat_of_nat_32: "n < 4294967296 \<Longrightarrow> unat (word_of_nat n :: 32 word) = n"
  by (simp add: unat_of_nat)

lemma ucast_of_nat_32_64:
  assumes "n < 4294967296"
  shows "(ucast (word_of_nat n :: 32 word) :: 64 word) = word_of_nat n"
  by (metis assms of_nat_unat unat_of_nat_32)

lemma w32:
  fixes year day hour :: int and yd :: nat
  assumes "1 \<le> year" "1 \<le> day" "0 \<le> hour"
  shows "(word_of_nat (nat (year - 1) * 8760) :: 32 word) + word_of_nat yd * 24
      + word_of_int ((day - 1) * 24) + word_of_int hour
     = word_of_nat (nat (year - 1) * 8760 + yd * 24 + nat (day - 1) * 24 + nat hour)"
proof -
  have n: "nat ((day - 1) * 24) = nat (day - 1) * 24"
    using assms(2) by (simp add: nat_mult_distrib)
  have "word_of_int ((day - 1) * 24) = (word_of_nat (nat ((day - 1) * 24)) :: 32 word)"
    using assms(2) by (intro word_of_int_nat) simp
  then have 1: "word_of_int ((day - 1) * 24) = (word_of_nat (nat (day - 1) * 24) :: 32 word)"
    unfolding n .
  have 2: "word_of_int hour = (word_of_nat (nat hour) :: 32 word)"
    using assms(3) by (rule word_of_int_nat)
  show ?thesis unfolding 1 2 by simp
qed

lemma w64:
  fixes Hh :: nat and minute :: int
  assumes "Hh < 4294967296" "0 \<le> minute"
  shows "(ucast (word_of_nat Hh :: 32 word) :: 64 word) * 60 + word_of_int minute
      = word_of_nat (Hh * 60 + nat minute)"
proof -
  have 2: "word_of_int minute = (word_of_nat (nat minute) :: 64 word)"
    using assms(2) by (rule word_of_int_nat)
  show ?thesis unfolding ucast_of_nat_32_64[OF assms(1)] 2 by simp
qed

lemma mon_yday_bound:
  assumes "1 \<le> month" "month \<le> (12::int)"
  shows "mon_yday ! 0 ! nat (month - 1) \<le> 334"
proof -
  consider "month = 1" | "month = 2" | "month = 3" | "month = 4" | "month = 5" | "month = 6"
    | "month = 7" | "month = 8" | "month = 9" | "month = 10" | "month = 11" | "month = 12"
    using assms by atomize_elim arith
  then show ?thesis by cases (simp_all add: mon_yday_def)
qed

lemma monthDays_bound:
  assumes "1 \<le> month" "month \<le> (12::int)"
  shows "monthDays ! nat (month - 1) \<le> 31"
proof -
  consider "month = 1" | "month = 2" | "month = 3" | "month = 4" | "month = 5" | "month = 6"
    | "month = 7" | "month = 8" | "month = 9" | "month = 10" | "month = 11" | "month = 12"
    using assms by atomize_elim arith
  then show ?thesis by cases (simp_all add: monthDays_def)
qed

lemma dateToMins_valid:
  assumes v: "valid_date year month day hour minute"
  shows "dateToMins year month day hour minute
    = Some (Inr (word_of_nat (linear_minutes year month day hour minute)))"
proof -
  note d = valid_dateD[OF v]
  obtain h1k where h: "at_index hours1kYears (year sdiv 1000) = Inr h1k"
    and l: "dateToMins_loop year (if h1k \<noteq> 0 then (year sdiv 1000) * 1000 else 1) h1k
       = Some (word_of_nat (nat (year - 1) * 8760))"
    using years_hours[OF d(1,2)] by blast
  define yd where "yd = mon_yday ! 0 ! nat (month - 1)"
  have a: "at_index (mon_yday ! 0) (month - 1) = Inr yd"
    using d by (simp add: at_index_def yd_def mon_yday_def)
  define Hh where "Hh = nat (year - 1) * 8760 + yd * 24 + nat (day - 1) * 24 + nat hour"
  note w32 = w32[OF d(1) d(5) d(7), of yd, folded Hh_def]
  have "yd \<le> 334" unfolding yd_def by (rule mon_yday_bound[OF d(3,4)])
  moreover have "day \<le> 31" using d(6) monthDays_bound[OF d(3,4)] by simp
  ultimately have small: "Hh < 4294967296"
    using d by (simp add: Hh_def)
  note w64 = w64[OF small d(9)]
  have lm: "linear_minutes year month day hour minute = Hh * 60 + nat minute"
    by (simp add: linear_minutes_def Hh_def yd_def)
  show ?thesis
    unfolding dateToMins_def h sum.case Let_def l option.case isLeapYear_False if_False a
      w32 w64 lm
    by (rule refl)
qed

subsection \<open>\<^verbatim>\<open>minsToDate\<close> on the supported range\<close>

lemma minsToDate_split:
  "minsToDate t = map_option (\<lambda>(year, total32). split_fields year total32) (split_years t)"
  unfolding minsToDate_def split_years_def split_fields_def
  by (cases "0 < find1k t 9")
    (simp_all only: Let_def prod.case if_True if_False option.map split: option.split, auto)

lemma find1k_9:
  "find1k t 9 =
    (if 4729874400 < t then 9 else if 4204274400 < t then 8 else if 3678674400 < t then 7
     else if 3153074400 < t then 6 else if 2627474400 < t then 5 else if 2101874400 < t then 4
     else if 1576274400 < t then 3 else if 1050674400 < t then 2 else if 525074400 < t then 1
     else if 0 < t then 0 else - 1)"
  by (simp add: find1k.simps[of t 9] find1k.simps[of t 8] find1k.simps[of t 7]
      find1k.simps[of t 6] find1k.simps[of t 5] find1k.simps[of t 4] find1k.simps[of t 3]
      find1k.simps[of t 2] find1k.simps[of t 1] find1k.simps[of t 0] find1k.simps[of t "- 1"]
      mins1kYears_def)

lemma block_div_mod:
  fixes r Y YL :: nat
  assumes "r < 525600" "YL \<le> Y"
  shows "(Y * 525600 + r - YL * 525600) div 525600 = Y - YL"
    and "(Y * 525600 + r - YL * 525600) mod 525600 = r"
proof -
  have e: "Y * 525600 + r - YL * 525600 = (Y - YL) * 525600 + r"
    using assms(2) by (simp add: algebra_simps)
  show "(Y * 525600 + r - YL * 525600) div 525600 = Y - YL"
    unfolding e using assms(1) by simp
  show "(Y * 525600 + r - YL * 525600) mod 525600 = r"
    unfolding e using assms(1) by simp
qed

lemma block_case:
  fixes t :: "64 word" and YL :: nat
  assumes N: "unat t = Y * 525600 + r" and r: "r < 525600"
    and lo: "YL * 525600 < unat t" and hi: "unat t \<le> YL * 525600 + 525600000"
    and L: "unat L = YL * 525600"
  shows "year_loop c (int YL + 1) (ucast (t - L) :: 32 word) = Some (int Y + 1, word_of_nat r)"
proof -
  have le: "L \<le> t" using lo L by (simp add: word_le_nat_alt)
  have u: "unat (t - L) = Y * 525600 + r - YL * 525600"
    using le by (simp add: unat_sub N L)
  have YL: "YL \<le> Y" using lo N r by linarith
  have small: "unat (t - L) < 2 ^ 32" using hi lo u N by simp
  have uc: "unat (ucast (t - L) :: 32 word) = unat (t - L)"
    using small by (simp add: unsigned_ucast_eq take_bit_nat_eq_self)
  show ?thesis
    using YL by (simp add: year_loop_eq uc u block_div_mod[OF r YL])
qed

lemma split_years_eq:
  fixes t :: "64 word"
  assumes N: "unat t = Y * 525600 + r" and r: "r < 525600" and Y: "Y < 9999"
  shows "split_years t = Some (int Y + 1, word_of_nat r)"
proof -
  note bc = block_case[OF N r]
  have w: "\<And>a. (a < t) = (unat a < unat t)" by (simp add: word_less_nat_alt)
  consider (b9) "4729874400 < unat t"
    | (b8) "4204274400 < unat t" "unat t \<le> 4729874400"
    | (b7) "3678674400 < unat t" "unat t \<le> 4204274400"
    | (b6) "3153074400 < unat t" "unat t \<le> 3678674400"
    | (b5) "2627474400 < unat t" "unat t \<le> 3153074400"
    | (b4) "2101874400 < unat t" "unat t \<le> 2627474400"
    | (b3) "1576274400 < unat t" "unat t \<le> 2101874400"
    | (b2) "1050674400 < unat t" "unat t \<le> 1576274400"
    | (b1) "525074400 < unat t" "unat t \<le> 1050674400"
    | (b0) "unat t \<le> 525074400"
    by atomize_elim arith
  then show ?thesis
  proof cases
    case b9
    have "unat t \<le> 8999 * 525600 + 525600000" using N r Y by simp
    from bc[of 8999 4729874400 9000, OF _ this] b9 show ?thesis
      by (simp add: split_years_def find1k_9 w mins1kYears_def)
  next
    case b8
    from bc[of 7999 4204274400 8000] b8 show ?thesis
      by (simp add: split_years_def find1k_9 w mins1kYears_def)
  next
    case b7
    from bc[of 6999 3678674400 7000] b7 show ?thesis
      by (simp add: split_years_def find1k_9 w mins1kYears_def)
  next
    case b6
    from bc[of 5999 3153074400 6000] b6 show ?thesis
      by (simp add: split_years_def find1k_9 w mins1kYears_def)
  next
    case b5
    from bc[of 4999 2627474400 5000] b5 show ?thesis
      by (simp add: split_years_def find1k_9 w mins1kYears_def)
  next
    case b4
    from bc[of 3999 2101874400 4000] b4 show ?thesis
      by (simp add: split_years_def find1k_9 w mins1kYears_def)
  next
    case b3
    from bc[of 2999 1576274400 3000] b3 show ?thesis
      by (simp add: split_years_def find1k_9 w mins1kYears_def)
  next
    case b2
    from bc[of 1999 1050674400 2000] b2 show ?thesis
      by (simp add: split_years_def find1k_9 w mins1kYears_def)
  next
    case b1
    from bc[of 999 525074400 1000] b1 show ?thesis
      by (simp add: split_years_def find1k_9 w mins1kYears_def)
  next
    case b0
    have uc: "unat (ucast t :: 32 word) = unat t"
      using b0 by (simp add: unsigned_ucast_eq take_bit_nat_eq_self)
    have dm: "(Y * 525600 + r) div 525600 = Y" "(Y * 525600 + r) mod 525600 = r"
      using r by simp_all
    from b0 r show ?thesis
      by (simp add: split_years_def find1k_9 w year_loop_eq uc N dm)
  qed
qed

lemma month_loop_0_1:
  "month_loop 0 (Suc 0) t =
    (if unat t < 44640 then 1 else if unat t < 84960 then 2 else if unat t < 129600 then 3
     else if unat t < 172800 then 4 else if unat t < 217440 then 5 else if unat t < 260640 then 6
     else if unat t < 305280 then 7 else if unat t < 349920 then 8 else if unat t < 393120 then 9
     else if unat t < 437760 then 10 else if unat t < 480960 then 11 else 12)"
proof -
  note s = month_loop.simps[of 0 _ t]
  have "month_loop 0 12 t = 12" by (subst s) simp
  then have "month_loop 0 11 t = (if unat t < 480960 then 11 else 12)"
    by (subst s) (simp add: mon_yday_def word_less_nat_alt)
  then have "month_loop 0 10 t = (if unat t < 437760 then 10 else if unat t < 480960 then 11 else 12)"
    by (subst s) (simp add: mon_yday_def word_less_nat_alt)
  then have "month_loop 0 9 t = (if unat t < 393120 then 9 else if unat t < 437760 then 10
      else if unat t < 480960 then 11 else 12)"
    by (subst s) (simp add: mon_yday_def word_less_nat_alt)
  then have "month_loop 0 8 t = (if unat t < 349920 then 8 else if unat t < 393120 then 9
      else if unat t < 437760 then 10 else if unat t < 480960 then 11 else 12)"
    by (subst s) (simp add: mon_yday_def word_less_nat_alt)
  then have "month_loop 0 7 t = (if unat t < 305280 then 7 else if unat t < 349920 then 8
      else if unat t < 393120 then 9 else if unat t < 437760 then 10
      else if unat t < 480960 then 11 else 12)"
    by (subst s) (simp add: mon_yday_def word_less_nat_alt)
  then have "month_loop 0 6 t = (if unat t < 260640 then 6 else if unat t < 305280 then 7
      else if unat t < 349920 then 8 else if unat t < 393120 then 9
      else if unat t < 437760 then 10 else if unat t < 480960 then 11 else 12)"
    by (subst s) (simp add: mon_yday_def word_less_nat_alt)
  then have "month_loop 0 5 t = (if unat t < 217440 then 5 else if unat t < 260640 then 6
      else if unat t < 305280 then 7 else if unat t < 349920 then 8 else if unat t < 393120 then 9
      else if unat t < 437760 then 10 else if unat t < 480960 then 11 else 12)"
    by (subst s) (simp add: mon_yday_def word_less_nat_alt)
  then have "month_loop 0 4 t = (if unat t < 172800 then 4 else if unat t < 217440 then 5
      else if unat t < 260640 then 6 else if unat t < 305280 then 7 else if unat t < 349920 then 8
      else if unat t < 393120 then 9 else if unat t < 437760 then 10
      else if unat t < 480960 then 11 else 12)"
    by (subst s) (simp add: mon_yday_def word_less_nat_alt)
  then have "month_loop 0 3 t = (if unat t < 129600 then 3 else if unat t < 172800 then 4
      else if unat t < 217440 then 5 else if unat t < 260640 then 6 else if unat t < 305280 then 7
      else if unat t < 349920 then 8 else if unat t < 393120 then 9 else if unat t < 437760 then 10
      else if unat t < 480960 then 11 else 12)"
    by (subst s) (simp add: mon_yday_def word_less_nat_alt)
  then have "month_loop 0 2 t = (if unat t < 84960 then 2 else if unat t < 129600 then 3
      else if unat t < 172800 then 4 else if unat t < 217440 then 5 else if unat t < 260640 then 6
      else if unat t < 305280 then 7 else if unat t < 349920 then 8 else if unat t < 393120 then 9
      else if unat t < 437760 then 10 else if unat t < 480960 then 11 else 12)"
    by (subst s) (simp add: mon_yday_def word_less_nat_alt)
  then have "month_loop 0 (Suc (Suc 0)) t = (if unat t < 84960 then 2 else if unat t < 129600 then 3
      else if unat t < 172800 then 4 else if unat t < 217440 then 5 else if unat t < 260640 then 6
      else if unat t < 305280 then 7 else if unat t < 349920 then 8 else if unat t < 393120 then 9
      else if unat t < 437760 then 10 else if unat t < 480960 then 11 else 12)"
    by (simp add: numeral_2_eq_2)
  then show ?thesis
    by (subst s) (simp add: mon_yday_def word_less_nat_alt)
qed

lemma month_of_minutes:
  fixes D x :: nat
  assumes m: "1 \<le> month" "month \<le> 12" and D: "int D < monthDays ! nat (month - 1)"
    and x: "x < 1440" and t: "unat t = (mon_yday ! 0 ! nat (month - 1) + D) * 1440 + x"
  shows "month_loop 0 1 t = nat month \<and> unat t < 525600"
proof -
  consider "month = 1" | "month = 2" | "month = 3" | "month = 4" | "month = 5" | "month = 6"
    | "month = 7" | "month = 8" | "month = 9" | "month = 10" | "month = 11" | "month = 12"
    using m by atomize_elim arith
  then show ?thesis
    using D x t
    by cases (simp_all add: month_loop_0_1 mon_yday_def monthDays_def)
qed

lemma uint_of_nat_32:
  "n < 4294967296 \<Longrightarrow> uint (word_of_nat n :: 32 word) = int n"
  by (simp add: uint_nat unat_of_nat)

lemma split_fields_eq:
  fixes t :: "32 word"
  assumes v: "valid_date year month day hour minute"
    and t: "unat t = (mon_yday ! 0 ! nat (month - 1) + nat (day - 1)) * 1440
              + (nat hour * 60 + nat minute)"
  shows "split_fields year t = (year, month, day, hour, minute)"
proof -
  note d = valid_dateD[OF v]
  define D H MI yd where "D = nat (day - 1)" and "H = nat hour" and "MI = nat minute"
    and "yd = mon_yday ! 0 ! nat (month - 1)"
  have b: "int D < monthDays ! nat (month - 1)" "H < 24" "MI < 60"
    using d by (simp_all add: D_def H_def MI_def)
  have D31: "D < 31"
  proof -
    consider "month = 1" | "month = 2" | "month = 3" | "month = 4" | "month = 5" | "month = 6"
      | "month = 7" | "month = 8" | "month = 9" | "month = 10" | "month = 11" | "month = 12"
      using d(3,4) by atomize_elim arith
    then show ?thesis using b(1) by cases (simp_all add: monthDays_def)
  qed
  have x: "H * 60 + MI < 1440" using b by simp
  have t': "unat t = (yd + D) * 1440 + (H * 60 + MI)"
    using t by (simp add: D_def H_def MI_def yd_def)
  from month_of_minutes[OF d(3,4) b(1) x t'[unfolded yd_def]]
  have ml: "month_loop 0 (Suc 0) t = nat month" by simp
  have tw: "t = word_of_nat ((yd + D) * 1440 + (H * 60 + MI))"
    using t' by (metis of_nat_unat ucast_id)
  have t2: "t - word_of_nat yd * 24 * 60 = word_of_nat (D * 1440 + (H * 60 + MI))"
    unfolding tw by (simp add: algebra_simps)
  have u2: "uint (word_of_nat (D * 1440 + (H * 60 + MI)) :: 32 word) = int (D * 1440 + (H * 60 + MI))"
    using D31 x by (intro uint_of_nat_32) simp
  have dv: "int (D * 1440 + (H * 60 + MI)) div 1440 = int D"
    using x by (simp add: zdiv_int[symmetric] del: of_nat_add of_nat_mult)
  have t3: "(word_of_nat (D * 1440 + (H * 60 + MI)) :: 32 word) - word_of_int (int D * 1440)
      = word_of_nat (H * 60 + MI)"
    by (simp add: algebra_simps)
  have u3: "uint (word_of_nat (H * 60 + MI) :: 32 word) = int (H * 60 + MI)"
    using x by (intro uint_of_nat_32) simp
  have dh: "int (H * 60 + MI) div 60 = int H"
    using b by (simp add: zdiv_int[symmetric] del: of_nat_add of_nat_mult)
  have t4: "(word_of_nat (H * 60 + MI) :: 32 word) - word_of_int (int H * 60) = word_of_nat MI"
    by (simp add: algebra_simps)
  have u4: "uint (word_of_nat MI :: 32 word) = int MI"
    using b by (intro uint_of_nat_32) simp
  have nm: "nat month - Suc 0 = nat (month - 1)" using d by simp
  have conv: "int D + 1 = day" "int H = hour" "int MI = minute" "int (nat month) = month"
    using d by (simp_all add: D_def H_def MI_def)
  have e: "(24::int) * 60 = 1440" by simp
  note t4h = t4[unfolded conv(2)]
  show ?thesis
    unfolding split_fields_def Let_def isLeapYear_False if_False One_nat_def ml nm
      t2[unfolded yd_def] e u2 dv t3 u3 dh conv t4h u4
    by (rule refl)
qed

lemma linear_minutes_split:
  "linear_minutes year month day hour minute
    = nat (year - 1) * 525600
      + ((mon_yday ! 0 ! nat (month - 1) + nat (day - 1)) * 1440 + (nat hour * 60 + nat minute))"
  by (simp add: linear_minutes_def algebra_simps)

lemma year_minutes_bound:
  assumes v: "valid_date year month day hour minute"
  shows "(mon_yday ! 0 ! nat (month - 1) + nat (day - 1)) * 1440 + (nat hour * 60 + nat minute)
    < 525600"
proof -
  note d = valid_dateD[OF v]
  define r where "r = (mon_yday ! 0 ! nat (month - 1) + nat (day - 1)) * 1440 + (nat hour * 60 + nat minute)"
  have r32: "r < 4294967296"
    using d mon_yday_bound[OF d(3,4)] monthDays_bound[OF d(3,4)] by (simp add: r_def)
  have u: "unat (word_of_nat r :: 32 word) = r" by (rule unat_of_nat_32[OF r32])
  have 1: "int (nat (day - 1)) < monthDays ! nat (month - 1)" using d by simp
  have 2: "nat hour * 60 + nat minute < 1440" using d by simp
  have "unat (word_of_nat r :: 32 word) < 525600"
    using month_of_minutes[OF d(3,4) 1 2 u[unfolded r_def]] by (simp add: r_def)
  then have "r < 525600" by (simp only: u)
  then show ?thesis by (simp only: r_def)
qed

lemma minsToDate_linear_minutes:
  assumes v: "valid_date year month day hour minute"
  shows "minsToDate (word_of_nat (linear_minutes year month day hour minute))
    = Some (year, month, day, hour, minute)"
proof -
  note d = valid_dateD[OF v]
  define r where "r = (mon_yday ! 0 ! nat (month - 1) + nat (day - 1)) * 1440 + (nat hour * 60 + nat minute)"
  have r: "r < 525600" unfolding r_def by (rule year_minutes_bound[OF v])
  have N: "linear_minutes year month day hour minute = nat (year - 1) * 525600 + r"
    unfolding r_def by (rule linear_minutes_split)
  have Y: "nat (year - 1) < 9999" using d by simp
  have "nat (year - 1) * 525600 + r < 18446744073709551616" using Y r by simp
  then have u: "unat (word_of_nat (nat (year - 1) * 525600 + r) :: 64 word) = nat (year - 1) * 525600 + r"
    by (rule unat_of_nat_64)
  have y: "int (nat (year - 1)) + 1 = year" using d by simp
  have sy: "split_years (word_of_nat (nat (year - 1) * 525600 + r)) = Some (year, word_of_nat r)"
    using split_years_eq[OF u r Y] unfolding y .
  have ur: "unat (word_of_nat r :: 32 word) = r" using r by (intro unat_of_nat_32) simp
  have sf: "split_fields year (word_of_nat r) = (year, month, day, hour, minute)"
    unfolding r_def by (rule split_fields_eq[OF v ur[unfolded r_def]])
  show ?thesis
    unfolding minsToDate_split N sy by (simp add: sf)
qed

subsection \<open>Round trip on the dates \<open>daysInMonth\<close> admits\<close>

text \<open>
  With \<open>isLeapYear\<close> constantly false every year of the codec has 365 days, and the
  tables \<open>mins1kYears\<close> and \<open>hours1kYears\<close> count 365-day years as well. On the
  dates whose day does not exceed what \<open>daysInMonth\<close> returns (28 for every February)
  the two conversions are inverse, and \<open>dateToMins\<close> is injective.
\<close>

lemma minsToDate_dateToMins:
  assumes "valid_date year month day hour minute"
  shows "\<exists>t. dateToMins year month day hour minute = Some (Inr t)
           \<and> minsToDate t = Some (year, month, day, hour, minute)"
  using dateToMins_valid[OF assms] minsToDate_linear_minutes[OF assms] by simp

lemma dateToMins_inj:
  assumes a: "valid_date y1 mo1 d1 h1 mi1" and b: "valid_date y2 mo2 d2 h2 mi2"
    and e: "dateToMins y1 mo1 d1 h1 mi1 = dateToMins y2 mo2 d2 h2 mi2"
  shows "(y1, mo1, d1, h1, mi1) = (y2, mo2, d2, h2, mi2)"
proof -
  have "word_of_nat (linear_minutes y1 mo1 d1 h1 mi1)
      = (word_of_nat (linear_minutes y2 mo2 d2 h2 mi2) :: 64 word)"
    using e unfolding dateToMins_valid[OF a] dateToMins_valid[OF b] by simp
  then have "minsToDate (word_of_nat (linear_minutes y1 mo1 d1 h1 mi1))
      = minsToDate (word_of_nat (linear_minutes y2 mo2 d2 h2 mi2))"
    by simp
  then show ?thesis
    unfolding minsToDate_linear_minutes[OF a] minsToDate_linear_minutes[OF b] by simp
qed

section \<open>The claims\<close>

subsection \<open>C2: the leap-year predicate\<close>

text \<open>
  C2. For every year \<open>isLeapYear\<close> is to hold exactly when the Gregorian rule does,
  so it is to hold at 2000 and at 2004. The source tests \<^verbatim>\<open>year & 3 == 0\<close>, which
  C reads as \<^verbatim>\<open>year & (3 == 0)\<close>: the conjunction with 0 is never set, and the
  function returns false at 2000 and at 2004, where the Gregorian rule holds.
\<close>

theorem isLeapYear_2000_false:
  "isLeapYear 2000 = False \<and> isLeapYear 2004 = False
     \<and> gregorian_leap 2000 \<and> gregorian_leap 2004"
  by (simp add: isLeapYear_def gregorian_leap_def)

subsection \<open>C1: the round trip at 29 February\<close>

text \<open>
  C1. \<open>minsToDate (dateToMins v)\<close> is to return \<open>v\<close> for every valid date of the years
  1 to 9999, and the conversion is to be injective there. 29 February 2024 is a valid
  date, 2024 being a leap year. The source maps it to the minute count of 1 March 2024
  and converts that count back to 1 March: the leap day is lost, because
  \<open>isLeapYear\<close> never holds.
\<close>

theorem feb29_not_round_tripped:
  "gregorian_leap 2024
     \<and> dateToMins 2024 2 29 0 0 = Some (Inr 1063373760)
     \<and> minsToDate 1063373760 = Some (2024, 3, 1, 0, 0)
     \<and> dateToMins 2024 3 1 0 0 = Some (Inr 1063373760)"
proof -
  have 1: "gregorian_leap 2024" by (simp add: gregorian_leap_def)
  have 2: "dateToMins 2024 2 29 0 0 = Some (Inr 1063373760)" by code_simp
  have 3: "minsToDate 1063373760 = Some (2024, 3, 1, 0, 0)" by code_simp
  have 4: "dateToMins 2024 3 1 0 0 = Some (Inr 1063373760)" by code_simp
  show ?thesis using 1 2 3 4 by simp
qed

subsection \<open>C10: the conversions return\<close>

lemma find1k_bounds: "- 1 \<le> find1k total64 9 \<and> find1k total64 9 \<le> 9"
  by (simp add: find1k_9)

lemma month_loop_le: "c \<le> 12 \<Longrightarrow> month_loop temp c total32 \<le> 12"
  by (induction temp c total32 rule: month_loop.induct) (subst month_loop.simps, simp)

text \<open>
  C10. \<open>minsToDate\<close> returns a date for every 64 bit minute count and \<open>dateToMins\<close>
  returns for all integers (a date, or the report of a table index out of range): the
  year loop and the counting loop return from every start, the block search ends with
  an index between -1 and 9, and the month loop ends with a month of at most 12.
\<close>

theorem codec_terminates:
  "(\<exists>r. minsToDate total64 = Some r)
     \<and> (\<exists>r. dateToMins year month day hour minute = Some r)
     \<and> (\<exists>r. year_loop c y total32 = Some r)
     \<and> (\<exists>r. dateToMins_loop c d total32 = Some r)
     \<and> - 1 \<le> find1k total64 9 \<and> find1k total64 9 \<le> 9
     \<and> month_loop temp 1 total32 \<le> 12"
proof -
  have "\<exists>r. split_years total64 = Some r"
    unfolding split_years_def by (simp add: Let_def year_loop_eq split: prod.split)
  then obtain q where "split_years total64 = Some q" ..
  then have "minsToDate total64 = Some (case q of (year, t) \<Rightarrow> split_fields year t)"
    by (simp add: minsToDate_split)
  then have 1: "\<exists>r. minsToDate total64 = Some r" ..
  have 2: "\<exists>r. dateToMins year month day hour minute = Some r"
    unfolding dateToMins_def
    by (simp add: Let_def dateToMins_loop_eq split: sum.split)
  have 3: "\<exists>r. year_loop c y total32 = Some r" by (simp add: year_loop_eq)
  have 4: "\<exists>r. dateToMins_loop c d total32 = Some r" by (simp add: dateToMins_loop_eq)
  have 5: "month_loop temp 1 total32 \<le> 12" by (rule month_loop_le) simp
  show ?thesis using 1 2 3 4 5 find1k_bounds by blast
qed

subsection \<open>C7: the pause of the preset rotation\<close>

lemma not_due_while_paused:
  assumes p: "autoPaused s" "pauseDelay s = 1800000"
    and ms: "ms < 1800000" and now: "millis e = pauseNow s + word_of_nat ms"
  shows "\<not> autoInterval_due e dt s"
proof -
  have "millis e - pauseNow s = word_of_nat ms" using now by simp
  moreover have "unat (word_of_nat ms :: 32 word) = ms"
    using ms by (intro unat_of_nat_32) simp
  ultimately have "\<not> (millis e - pauseNow s \<ge> pauseDelay s)"
    using ms p(2) by (simp add: word_le_nat_alt)
  then show ?thesis using p(1) by (simp add: autoInterval_due_def Let_def)
qed

lemma checks_while_paused:
  assumes "autoPaused s" "pauseDelay s = 1800000"
    and "\<forall>(e, dt) \<in> set cs. \<exists>ms < 1800000. millis e = pauseNow s + word_of_nat ms"
  shows "\<exists>s'. interval_checks cs s = Inr s' \<and> autoTime s' = autoTime s
            \<and> destinationTime s' = destinationTime s \<and> departedTime s' = departedTime s
            \<and> autoPaused s' \<and> pauseNow s' = pauseNow s \<and> pauseDelay s' = pauseDelay s"
  using assms
proof (induction cs arbitrary: s)
  case Nil
  then show ?case by simp
next
  case (Cons c cs)
  obtain e dt where c: "c = (e, dt)" by (cases c)
  from Cons.prems(3) c obtain ms where ms: "ms < 1800000" "millis e = pauseNow s + word_of_nat ms"
    by auto
  have nd: "\<not> autoInterval_due e dt s"
    by (rule not_due_while_paused[OF Cons.prems(1,2) ms])
  have st: "autoInterval_step e dt s = Inr (s\<lparr>autoIntDone := False\<rparr>)"
    using nd by (simp add: autoInterval_step_def)
  have "\<exists>s'. interval_checks cs (s\<lparr>autoIntDone := False\<rparr>) = Inr s'
            \<and> autoTime s' = autoTime (s\<lparr>autoIntDone := False\<rparr>)
            \<and> destinationTime s' = destinationTime (s\<lparr>autoIntDone := False\<rparr>)
            \<and> departedTime s' = departedTime (s\<lparr>autoIntDone := False\<rparr>)
            \<and> autoPaused s' \<and> pauseNow s' = pauseNow (s\<lparr>autoIntDone := False\<rparr>)
            \<and> pauseDelay s' = pauseDelay (s\<lparr>autoIntDone := False\<rparr>)"
    using Cons.prems by (intro Cons.IH) auto
  then show ?case by (simp add: c st)
qed

text \<open>
  C7. After \<open>pauseAuto\<close> at the millisecond count P with a rotation interval
  configured, every interval check made less than 30 minutes (1800000 ms) after P,
  however many there are, leaves the preset index and both displays as they were and
  the pause in force; an interval check can only be due once the counter is at least
  \<open>pauseDelay\<close> past P, and from then on it is due at second 59 of a minute before a
  multiple of the interval. The counter is a 32 bit word: the elapsed time is the
  difference the source computes.
\<close>

theorem pause_suppresses_interval:
  assumes iv: "autoTimeInterval eP \<noteq> 0"
    and cs: "\<forall>(e, dt) \<in> set cs. \<exists>ms < 1800000. millis e = millis eP + word_of_nat ms"
  shows "(\<exists>s'. interval_checks cs (pauseAuto eP s) = Inr s' \<and> autoTime s' = autoTime s
            \<and> destinationTime s' = destinationTime s \<and> departedTime s' = departedTime s
            \<and> autoPaused s' \<and> pauseNow s' = millis eP \<and> pauseDelay s' = 1800000)
     \<and> (\<forall>e dt. autoInterval_due e dt (pauseAuto eP s)
            \<longrightarrow> millis e - millis eP \<ge> pauseDelay (pauseAuto eP s))
     \<and> (\<forall>e dt. millis e - millis eP \<ge> pauseDelay (pauseAuto eP s) \<and> dt_second dt = 59
              \<and> autoTimeInterval e \<noteq> 0
              \<and> (if dt_minute dt = 59 then 0 else dt_minute dt + 1) smod autoTimeInterval e = 0
            \<longrightarrow> autoInterval_due e dt (pauseAuto eP s))"
proof -
  let ?s = "pauseAuto eP s"
  have p: "autoPaused ?s" "pauseDelay ?s = 1800000" "pauseNow ?s = millis eP"
    "autoTime ?s = autoTime s" "destinationTime ?s = destinationTime s"
    "departedTime ?s = departedTime s"
    using iv by (simp_all add: pauseAuto_def)
  have 1: "\<exists>s'. interval_checks cs ?s = Inr s' \<and> autoTime s' = autoTime s
            \<and> destinationTime s' = destinationTime s \<and> departedTime s' = departedTime s
            \<and> autoPaused s' \<and> pauseNow s' = millis eP \<and> pauseDelay s' = 1800000"
    using checks_while_paused[OF p(1,2), of cs] cs unfolding p by simp
  have 2: "\<forall>e dt. autoInterval_due e dt ?s \<longrightarrow> millis e - millis eP \<ge> pauseDelay ?s"
    using p by (simp add: autoInterval_due_def Let_def)
  have 3: "\<forall>e dt. millis e - millis eP \<ge> pauseDelay ?s \<and> dt_second dt = 59
              \<and> autoTimeInterval e \<noteq> 0
              \<and> (if dt_minute dt = 59 then 0 else dt_minute dt + 1) smod autoTimeInterval e = 0
            \<longrightarrow> autoInterval_due e dt ?s"
    using p by (simp add: autoInterval_due_def Let_def)
  show ?thesis using 1 2 3 by blast
qed

theorem pause_suppresses_interval_witness:
  "autoTimeInterval (sample_env 1000) \<noteq> 0
   \<and> (\<exists>s'. interval_checks [(sample_env 61000, rtc sample_state\<lparr>dt_minute := 4, dt_second := 59\<rparr>)]
              (pauseAuto (sample_env 1000) sample_state) = Inr s'
          \<and> autoTime s' = autoTime sample_state
          \<and> destinationTime s' = destinationTime sample_state
          \<and> departedTime s' = departedTime sample_state
          \<and> autoPaused s' \<and> pauseNow s' = millis (sample_env 1000) \<and> pauseDelay s' = 1800000)
   \<and> autoInterval_due (sample_env 61000) (rtc sample_state\<lparr>dt_minute := 4, dt_second := 59\<rparr>)
        sample_state"
proof -
  have iv: "autoTimeInterval (sample_env 1000) \<noteq> 0" by (simp add: sample_env_def)
  have "millis (sample_env 61000) = millis (sample_env 1000) + word_of_nat 60000"
    by (simp add: sample_env_def)
  then have cs: "\<forall>(e, dt) \<in> set [(sample_env 61000, rtc sample_state\<lparr>dt_minute := 4, dt_second := 59\<rparr>)].
         \<exists>ms < 1800000. millis e = millis (sample_env 1000) + word_of_nat ms"
    by (auto intro!: exI[of _ 60000])
  have due: "autoInterval_due (sample_env 61000) (rtc sample_state\<lparr>dt_minute := 4, dt_second := 59\<rparr>)
        sample_state"
    by (simp add: autoInterval_due_def sample_env_def sample_state_def signed_modulo_int_def)
  from pause_suppresses_interval[OF iv cs, of sample_state] iv due show ?thesis by blast
qed

subsection \<open>The keypad buffer and the commit\<close>

lemmas helper_defs = emit_def needDep_def showSpec_def pauseAuto_def startBeepTimer_def
  setBeepMode_def


























lemma setFromStruct_ok: "\<exists>c'. setFromStruct ds c = Inr c'"
  by (cases ds)
    (simp add: setFromStruct_def setDay_def setMonth_def setYear_def daysInMonth_def
      isLeapYear_False at_index_def monthDays_def)

lemma preset_ok:
  assumes "0 \<le> a" "a \<le> 7"
  shows "at_index departedTimes a = Inr (departedTimes ! nat a)"
    and "at_index destinationTimes a = Inr (destinationTimes ! nat a)"
proof -
  have "length departedTimes = 8" "length destinationTimes = 8"
    by (simp_all add: departedTimes_def destinationTimes_def)
  then show "at_index departedTimes a = Inr (departedTimes ! nat a)"
    and "at_index destinationTimes a = Inr (destinationTimes ! nat a)"
    using assms by (simp_all add: at_index_def)
qed

lemma disableModes_ok:
  assumes at: "0 \<le> autoTime s" "autoTime s \<le> 7"
  shows "\<exists>s'. disableModes e s = Inr s' \<and> destinationTime s' = destinationTime s"
proof -
  obtain ds where ds: "at_index departedTimes (autoTime s) = Inr ds"
    using preset_ok(1)[OF at] by simp
  obtain c' where c': "setFromStruct ds (departedTime s) = Inr c'"
    using setFromStruct_ok by blast
  show ?thesis
    by (simp add: disableModes_def helper_defs Let_def ds c')
qed

lemma specialEntry_frame:
  assumes "specialEntry sp (entry0\<lparr>enterInterruptsMusic := True\<rparr>) s = (en, s')"
  shows "destinationTime s' = destinationTime s" "autoTime s' = autoTime s"
    "timetravelPersistent s' = timetravelPersistent s" "\<not> invalidEntry en"
    "enterInterruptsMusic en" "validEntry en = (sp \<noteq> 2 \<and> sp \<noteq> 3 \<and> sp \<noteq> 4)"
  using assms by (auto simp: specialEntry_def helper_defs entry0_def split: if_splits)

lemma enter_date_destination:
  assumes p: "parse_date n (dateBuffer s) = Inr (y, mo, d, h, mi)"
    and a: "apply_setters (date_setters y mo d h mi) (destinationTime s) = Inr dst"
    and at: "0 \<le> autoTime s" "autoTime s \<le> 7"
  shows "\<exists>en s'. enter_date e n s = Continue en s' \<and> destinationTime s' = dst
            \<and> \<not> invalidEntry en \<and> enterInterruptsMusic en
            \<and> validEntry en = (special_of e n y mo d h \<notin> {2, 3, 4})"
proof -
  obtain en s1 where sp: "specialEntry (special_of e n y mo d h)
      (entry0\<lparr>enterInterruptsMusic := True\<rparr>) s = (en, s1)"
    by (cases "specialEntry (special_of e n y mo d h) (entry0\<lparr>enterInterruptsMusic := True\<rparr>) s")
  note f = specialEntry_frame[OF sp]
  define s2 where "s2 = (if timetravelPersistent (s1\<lparr>destinationTime := dst\<rparr>)
      then emit [Save ''destinationTime''] (s1\<lparr>destinationTime := dst\<rparr>)
      else s1\<lparr>destinationTime := dst\<rparr>)"
  have s2: "destinationTime s2 = dst" "autoTime s2 = autoTime s"
    by (simp_all add: s2_def emit_def f)
  obtain s3 where dm: "disableModes e s2 = Inr s3" "destinationTime s3 = destinationTime s2"
    using disableModes_ok[of s2 e] at s2 by auto
  have a1: "apply_setters (date_setters y mo d h mi) (destinationTime s1) = Inr dst"
    using a f(1) by simp
  have "enter_date e n s = (case disableModes e s2 of Inl err \<Rightarrow> Fault err
      | Inr s \<Rightarrow> Continue en (startBeepTimer e (pauseAuto e s)))"
    unfolding enter_date_def p sum.case prod.case Let_def sp a1 s2_def by (rule refl)
  then have "enter_date e n s = Continue en (startBeepTimer e (pauseAuto e s3))"
    by (simp add: dm)
  moreover have "destinationTime (startBeepTimer e (pauseAuto e s3)) = dst"
    by (simp add: helper_defs dm s2)
  ultimately show ?thesis using f by auto
qed

lemma strlen_literal:
  assumes "dateBuffer s = str @ NUL # rest" "NUL \<notin> set str"
  shows "strlen (dateBuffer s) = Inr (int (length str))"
proof -
  have "takeWhile (\<lambda>c. c \<noteq> NUL) str = str"
    using assms(2) by (auto simp: takeWhile_eq_all_conv)
  then show ?thesis
    using assms(1) by (simp add: strlen_def cstr_def takeWhile_tail)
qed

lemma commitEntry_date:
  assumes len: "length (dateBuffer s) = 14"
    and sl: "strlen (dateBuffer s) = Inr n" and n: "n = 8 \<or> n = 12 \<or> (n = 4 \<and> read2digs (dateBuffer s) 0 \<noteq> 44)"
    and p: "parse_date n (dateBuffer s) = Inr (y, mo, d, h, mi)"
    and a: "apply_setters (date_setters y mo d h mi) (destinationTime s) = Inr dst"
    and at: "0 \<le> autoTime s" "autoTime s \<le> 7"
  shows "\<exists>en s'. commitEntry e s = Continue en s' \<and> destinationTime s' = dst
            \<and> \<not> invalidEntry en \<and> validEntry en = (special_of e n y mo d h \<notin> {2, 3, 4})
            \<and> (validEntry en \<longrightarrow> PlayFile ''/enter.mp3'' [PA_CHECKNM, PA_INTRMUS, PA_ALLOWSD] \<in> set (trace s'))"
proof -
  define s1 where "s1 = (emit [Call ''cancelETTAnim'', Call ''destinationTime.off'']
            (s\<lparr>isEnterKeyPressed := False, enterWasPressed := True\<rparr>))\<lparr>timeNow := millis e\<rparr>"
  have s1: "dateBuffer s1 = dateBuffer s" "destinationTime s1 = destinationTime s"
    "autoTime s1 = autoTime s"
    by (simp_all add: s1_def emit_def)
  obtain en s2 where ed: "enter_date e n s1 = Continue en s2" "destinationTime s2 = dst"
    "\<not> invalidEntry en" "enterInterruptsMusic en"
    "validEntry en = (special_of e n y mo d h \<notin> {2, 3, 4})"
    using enter_date_destination[of n s1 y mo d h mi dst e] p a at unfolding s1 by blast
  have cl: "classify e n s1 = Continue en s2"
    using n ed(1) by (auto simp: classify_def s1)
  have ce: "commitEntry e s = Continue en (resetBuffer (entrySound e en s2))"
    by (simp add: commitEntry_def len sl Let_def s1_def[symmetric] cl)
  have d: "destinationTime (resetBuffer (entrySound e en s2)) = dst"
    by (simp add: resetBuffer_def entrySound_def helper_defs Let_def ed(2))
  have t: "validEntry en \<longrightarrow> PlayFile ''/enter.mp3'' [PA_CHECKNM, PA_INTRMUS, PA_ALLOWSD]
      \<in> set (trace (resetBuffer (entrySound e en s2)))"
    using ed(4) by (simp add: resetBuffer_def entrySound_def helper_defs Let_def)
  show ?thesis using ce d t ed by blast
qed

lemma invalid_flags [simp]:
  "invalidEntry invalid" "\<not> validEntry invalid" "\<not> enterInterruptsMusic invalid"
  "\<not> invalidEntry valid" "validEntry valid" "\<not> invalidEntry entry0" "\<not> validEntry entry0"
  by (simp_all add: invalid_def valid_def entry0_def)

lemma enter_alsh_invalid:
  "enter_alsh e s = Continue en s' \<Longrightarrow> invalidEntry en \<Longrightarrow> s' = s \<and> en = invalid"
  by (auto simp: enter_alsh_def Let_def split: if_splits)

lemma enter_code_invalid:
  "enter_code e s = Continue en s' \<Longrightarrow> invalidEntry en \<Longrightarrow> s' = s \<and> en = invalid"
  by (auto simp: enter_code_def Let_def split: if_splits sum.splits)

lemma enter_int_invalid:
  "enter_int e s = Continue en s' \<Longrightarrow> invalidEntry en \<Longrightarrow> s' = s \<and> en = invalid"
  by (auto simp: enter_int_def split: if_splits)

lemma enter_qalm_invalid:
  "enter_qalm e s = Continue en s' \<Longrightarrow> invalidEntry en \<Longrightarrow> s' = s \<and> en = invalid"
  by (auto simp: enter_qalm_def Let_def split: if_splits sum.splits bool.splits)

lemma enter_ctdown_invalid:
  "enter_ctdown e s = Continue en s' \<Longrightarrow> \<not> invalidEntry en"
  by (auto simp: enter_ctdown_def Let_def split: if_splits)

lemma enter_rem_invalid:
  "enter_rem e s = Continue en s' \<Longrightarrow> invalidEntry en \<Longrightarrow> s' = s \<and> en = invalid"
  by (auto simp: enter_rem_def Let_def split: if_splits sum.splits bool.splits)

lemma enter_date_never_invalid:
  "enter_date e n s = Continue en s' \<Longrightarrow> \<not> invalidEntry en"
  by (auto simp: enter_date_def Let_def specialEntry_def entry0_def
      split: sum.splits prod.splits if_splits)

lemma classify_invalid:
  assumes "classify e n s = Continue en s'" "invalidEntry en"
  shows "s' = s \<and> en = invalid"
  using assms unfolding classify_def
  by (auto dest: enter_alsh_invalid enter_code_invalid enter_int_invalid enter_qalm_invalid
      enter_ctdown_invalid enter_rem_invalid enter_date_never_invalid split: if_splits)


lemma daysInMonth_range:
  assumes "1 \<le> mo" "mo \<le> 12"
  shows "\<exists>k. daysInMonth mo y = Inr k \<and> 28 \<le> k \<and> k \<le> 31"
proof -
  consider "mo = 1" | "mo = 2" | "mo = 3" | "mo = 4" | "mo = 5" | "mo = 6"
    | "mo = 7" | "mo = 8" | "mo = 9" | "mo = 10" | "mo = 11" | "mo = 12"
    using assms by atomize_elim arith
  then show ?thesis
    by cases (simp_all add: daysInMonth_def isLeapYear_False at_index_def monthDays_def)
qed

lemma parse_date_clamps:
  assumes p: "parse_date n buf = Inr (y, mo, d, h, mi)" and n: "n \<noteq> 4"
  shows "1 \<le> mo \<and> mo \<le> 12 \<and> 1 \<le> d \<and> (\<exists>k. daysInMonth mo y = Inr k \<and> d \<le> k)"
proof -
  define m0 where "m0 = (if read2digs buf 0 < 1 then 1 else read2digs buf 0)"
  define m1 where "m1 = (if m0 > 12 then 12 else m0)"
  define yr where "yr = read2digs buf 4 * 100 + read2digs buf 6"
  define d0 where "d0 = (if read2digs buf 2 < 1 then 1 else read2digs buf 2)"
  have m: "1 \<le> m1" "m1 \<le> 12" by (simp_all add: m1_def m0_def)
  obtain k where k: "daysInMonth m1 yr = Inr k" "28 \<le> k" "k \<le> 31"
    using daysInMonth_range[OF m] by blast
  have "parse_date n buf = (case daysInMonth m1 yr of Inl err \<Rightarrow> Inl err
      | Inr k \<Rightarrow> Inr (yr, m1, (if d0 > k then k else d0),
          (if n = 12 then read2digs buf 8 else - 1), (if n = 12 then read2digs buf 10 else - 1)))"
    using n unfolding parse_date_def Let_def m1_def m0_def yr_def d0_def by simp
  then have "parse_date n buf = Inr (yr, m1, (if d0 > k then k else d0),
      (if n = 12 then read2digs buf 8 else - 1), (if n = 12 then read2digs buf 10 else - 1))"
    by (simp add: k(1))
  with p have e: "y = yr" "mo = m1" "d = (if d0 > k then k else d0)" by simp_all
  have "1 \<le> d" "d \<le> k" using k by (simp_all add: e d0_def)
  then show ?thesis using m k(1) e by auto
qed

subsection \<open>C9: the buffer is bounded and cleared\<close>



subsection \<open>C8: the date-only entry 12251985\<close>

text \<open>
  C8. With the digits 12251985 in the buffer (and the preset index in its range 0 to
  7), the commit parses year 1985, month 12 and day 25 and no hour or minute, calls
  the setters of the destination display for year, month and day only, and the
  destination then holds month 12, day 25, year 1985 with its hour and minute as
  before.
\<close>

theorem date_only_entry:
  assumes buf: "dateBuffer s = ''12251985'' @ NUL # rest" "length rest = 5"
    and at: "0 \<le> autoTime s" "autoTime s \<le> 7"
  shows "parse_date 8 (dateBuffer s) = Inr (1985, 12, 25, - 1, - 1)
     \<and> date_setters 1985 12 25 (- 1) (- 1) = [SetYear 1985, SetMonth 12, SetDay 25]
     \<and> (\<exists>en s'. commitEntry e s = Continue en s'
          \<and> destinationTime s' = (destinationTime s)\<lparr>cd_year := 1985, cd_month := 12, cd_day := 25\<rparr>
          \<and> cd_hour (destinationTime s') = cd_hour (destinationTime s)
          \<and> cd_minute (destinationTime s') = cd_minute (destinationTime s))"
proof -
  have len: "length (dateBuffer s) = 14" using buf by simp
  have sl: "strlen (dateBuffer s) = Inr 8"
    using strlen_literal[OF buf(1)] by (simp add: NUL_def)
  have p: "parse_date 8 (dateBuffer s) = Inr (1985, 12, 25, - 1, - 1)"
    by (simp add: parse_date_def buf read2digs_def Let_def daysInMonth_def isLeapYear_False
        at_index_def monthDays_def)
  have ds: "date_setters 1985 12 25 (- 1) (- 1) = [SetYear 1985, SetMonth 12, SetDay 25]"
    by (simp add: date_setters_def)
  have a: "apply_setters (date_setters 1985 12 25 (- 1) (- 1)) (destinationTime s)
      = Inr ((destinationTime s)\<lparr>cd_year := 1985, cd_month := 12, cd_day := 25\<rparr>)"
    by (simp add: ds setYear_def setMonth_def setDay_def daysInMonth_def isLeapYear_False
        at_index_def monthDays_def)
  from commitEntry_date[OF len sl _ p a at, of e]
  obtain en s' where "commitEntry e s = Continue en s'"
    "destinationTime s' = (destinationTime s)\<lparr>cd_year := 1985, cd_month := 12, cd_day := 25\<rparr>"
    by auto
  then show ?thesis using p ds by auto
qed

theorem date_only_entry_witness:
  "dateBuffer (typed ''12251985'') = ''12251985'' @ NUL # replicate 5 NUL
     \<and> length (replicate 5 NUL) = 5
     \<and> 0 \<le> autoTime (typed ''12251985'') \<and> autoTime (typed ''12251985'') \<le> 7
     \<and> parse_date 8 (dateBuffer (typed ''12251985'')) = Inr (1985, 12, 25, - 1, - 1)
     \<and> date_setters 1985 12 25 (- 1) (- 1) = [SetYear 1985, SetMonth 12, SetDay 25]
     \<and> (\<exists>en s'. commitEntry (sample_env 2000) (typed ''12251985'') = Continue en s'
          \<and> destinationTime s'
              = (destinationTime (typed ''12251985''))\<lparr>cd_year := 1985, cd_month := 12, cd_day := 25\<rparr>
          \<and> cd_hour (destinationTime s') = cd_hour (destinationTime (typed ''12251985''))
          \<and> cd_minute (destinationTime s') = cd_minute (destinationTime (typed ''12251985'')))"
proof -
  have b: "dateBuffer (typed ''12251985'') = ''12251985'' @ NUL # replicate 5 NUL"
    by (simp add: typed_def eval_nat_numeral)
  have l: "length (replicate 5 NUL) = 5" by simp
  have a: "0 \<le> autoTime (typed ''12251985'')" "autoTime (typed ''12251985'') \<le> 7"
    by (simp_all add: typed_def sample_state_def)
  from date_only_entry[OF b l a, of "sample_env 2000"] show ?thesis
    using b l a by blast
qed

subsection \<open>C5: clamping the day of a date entry\<close>

text \<open>
  C5. The day of an 8 or 12 digit entry is to be clamped to the length of the month,
  which is 29 for February of a leap year. 2024 is a leap year; the source clamps the
  entry 02302024 to 28 February, because \<open>daysInMonth\<close> returns 28 for February of
  every year (\<open>isLeapYear\<close> never holds). Lemma \<open>parse_date_clamps\<close> shows the clamping
  into 1 to 12 and into 1 to \<open>daysInMonth\<close> as the source computes it.
\<close>

theorem leap_day_entry_clamped_to_28:
  "gregorian_leap 2024
   \<and> daysInMonth 2 2024 = Inr 28
   \<and> parse_date 8 (dateBuffer (typed ''02302024'')) = Inr (2024, 2, 28, - 1, - 1)
   \<and> map_option destinationTime (outcome_state (commitEntry (sample_env 2000) (typed ''02302024'')))
       = Some (clk 2024 2 28 1 21 0)"
  by code_simp

subsection \<open>C4: entries the interpreter rejects\<close>






















subsection \<open>C3: a time travel without the sequence\<close>







subsection \<open>C6: the roll-over of the year 9999\<close>

lemma linear_minutes_year:
  assumes "1 \<le> year"
  shows "linear_minutes (year + 9999) month day hour minute
    = linear_minutes year month day hour minute + 5255474400"
proof -
  have "nat (year + 9999 - 1) = nat (year - 1) + 9999" using assms by simp
  then show ?thesis by (simp add: linear_minutes_def algebra_simps)
qed

text \<open>
  C6, as stated, fails with an additive offset: at the year 10000, with an offset of
  60 minutes added, the present display shows minute 5255874090 before the
  roll-over and, in 64-bit arithmetic, minute -5255074710 after it. It fails also when
  the year is beyond 10000: at the year 10001, with an offset of 60 minutes
  subtracted, the minute shown is 5256399570 before and 5255873970 after, a year
  less.
\<close>

theorem rollover_moves_display:
  "displayed_minutes (rollover_state 2050 (- 7950) True 60) = 5255874090
   \<and> displayed_minutes (rollover (rollover_state 2050 (- 7950) True 60)) = - 5255074710
   \<and> displayed_minutes (rollover_state 2050 (- 7951) False 60) = 5256399570
   \<and> displayed_minutes (rollover (rollover_state 2050 (- 7951) False 60)) = 5255873970
   \<and> (- 5255074710 :: 64 word) \<noteq> 5255874090"
  by (simp add: displayed_minutes_def effective_minutes_def rollover_state_def rollover_def
      Let_def myrtcnow_def emit_def setYearOffset_def sample_state_def clk_def
      linear_minutes_def mon_yday_def applyTimeDifference_def)

text \<open>
  C6, amended. Whenever the year the clock shows exceeds 9999, the roll-over sets the
  year of the hardware clock to 2017 and the year offset to 2016 and, when
  \<^verbatim>\<open>timeDifference\<close> is not 0, replaces it with 5255474400 less its value and inverts
  \<^verbatim>\<open>timeDiffUp\<close>; it prints one line, saves the present display or its year offset, and
  raises no error. When that year is 10000 and the offset is active and subtractive,
  the minute the present display shows is exactly the same before and after.
\<close>

theorem rollover_remaps:
  assumes Y: "dt_year (rtc s) - cd_yearoffset (presentTime s) > 9999"
  shows "rtc (rollover s) = (rtc s)\<lparr>dt_year := 2017\<rparr>
     \<and> presentTime (rollover s) = (presentTime s)\<lparr>cd_yearoffset := 2016\<rparr>
     \<and> timeDifference (rollover s)
          = (if timeDifference s \<noteq> 0 then 5255474400 - timeDifference s else timeDifference s)
     \<and> timeDiffUp (rollover s) = (if timeDifference s \<noteq> 0 then \<not> timeDiffUp s else timeDiffUp s)
     \<and> trace (rollover s) = trace s @ [Call ''Serial.println'',
          if timetravelPersistent s then Save ''presentTime'' else Call ''presentTime.saveYOffs'']
     \<and> (dt_year (rtc s) - cd_yearoffset (presentTime s) = 10000
          \<and> timeDifference s \<noteq> 0 \<and> \<not> timeDiffUp s
          \<longrightarrow> displayed_minutes (rollover s) = displayed_minutes s)"
proof -
  have 1: "rtc (rollover s) = (rtc s)\<lparr>dt_year := 2017\<rparr>"
    using Y by (simp add: rollover_def Let_def myrtcnow_def emit_def setYearOffset_def)
  have 2: "presentTime (rollover s) = (presentTime s)\<lparr>cd_yearoffset := 2016\<rparr>"
    using Y by (simp add: rollover_def Let_def myrtcnow_def emit_def setYearOffset_def)
  have 3: "timeDifference (rollover s)
          = (if timeDifference s \<noteq> 0 then 5255474400 - timeDifference s else timeDifference s)"
    using Y by (simp add: rollover_def Let_def myrtcnow_def emit_def setYearOffset_def)
  have 4: "timeDiffUp (rollover s) = (if timeDifference s \<noteq> 0 then \<not> timeDiffUp s else timeDiffUp s)"
    using Y by (simp add: rollover_def Let_def myrtcnow_def emit_def setYearOffset_def)
  have 5: "trace (rollover s) = trace s @ [Call ''Serial.println'',
          if timetravelPersistent s then Save ''presentTime'' else Call ''presentTime.saveYOffs'']"
    using Y by (simp add: rollover_def Let_def myrtcnow_def emit_def setYearOffset_def)
  have 6: "displayed_minutes (rollover s) = displayed_minutes s"
    if y: "dt_year (rtc s) - cd_yearoffset (presentTime s) = 10000"
      and nz: "timeDifference s \<noteq> 0" and dn: "\<not> timeDiffUp s"
  proof -
    define r where "r = linear_minutes 1 (dt_month (rtc s)) (dt_day (rtc s))
        (dt_hour (rtc s)) (dt_minute (rtc s))"
    have before: "effective_minutes (rtc s) (cd_yearoffset (presentTime s))
        = word_of_nat r + 5255474400"
      using linear_minutes_year[of 1] by (simp add: effective_minutes_def y r_def)
    have after: "effective_minutes (rtc (rollover s)) (cd_yearoffset (presentTime (rollover s)))
        = word_of_nat r"
      by (simp add: effective_minutes_def 1 2 r_def)
    show ?thesis
      using nz dn by (simp add: displayed_minutes_def applyTimeDifference_def before after 3 4)
  qed
  show ?thesis using 1 2 3 4 5 6 by blast
qed

theorem rollover_remaps_witness:
  "displayed_minutes (rollover (rollover_state 2050 (- 7950) False 60))
     = displayed_minutes (rollover_state 2050 (- 7950) False 60)
   \<and> timeDifference (rollover (rollover_state 2050 (- 7950) False 60)) = 5255474340
   \<and> timeDiffUp (rollover (rollover_state 2050 (- 7950) False 60))
   \<and> dt_year (rtc (rollover (rollover_state 2050 (- 7950) False 60))) = 2017
   \<and> cd_yearoffset (presentTime (rollover (rollover_state 2050 (- 7950) False 60))) = 2016"
  using rollover_remaps[of "rollover_state 2050 (- 7950) False 60"]
  by (simp add: rollover_state_def sample_state_def clk_def)

end
